theory Spec2Isabelle
  imports Complex_Main "HOL-Library.Char_ord" "HOL-Library.List_Lexorder"
begin

section \<open>Python values and exceptions\<close>

text \<open>
  The script \<^verbatim>\<open>scripts/BuildHTMLFromJSONFiles.py\<close> works on the values that
  \<^verbatim>\<open>json.load\<close> returns: \<^verbatim>\<open>None\<close>, \<^verbatim>\<open>bool\<close>, \<^verbatim>\<open>int\<close>, \<^verbatim>\<open>float\<close>,
  \<^verbatim>\<open>str\<close>, \<^verbatim>\<open>list\<close> and \<^verbatim>\<open>dict\<close>. A Python \<^verbatim>\<open>str\<close> is a list of
  characters (one \<^typ>\<open>char\<close> per character of the string). A \<^verbatim>\<open>dict\<close> is the list of
  its items in insertion order; a key is looked up with \<^const>\<open>map_of\<close>. A \<^verbatim>\<open>float\<close> is a
  real number, an infinity or a NaN (the parser accepts \<^verbatim>\<open>1e999\<close>, \<^verbatim>\<open>NaN\<close> and
  \<^verbatim>\<open>Infinity\<close>); \<^verbatim>\<open>-0.0\<close> and \<^verbatim>\<open>0.0\<close> are both \<open>Finite 0\<close>.
\<close>

datatype pyfloat = Finite real | PosInf | NegInf | NaN

datatype json =
    JNull
  | JBool bool
  | JInt int
  | JFloat pyfloat
  | JStr string
  | JList "json list"
  | JObj "(string \<times> json) list"

text \<open>
  The exceptions the script can meet. The model of a function that may raise has a
  sum type as its result: \<open>Inl e\<close> when the exception \<open>e\<close> leaves the function,
  \<open>Inr v\<close> when it returns \<open>v\<close>.
\<close>

datatype py_error =
    TypeError
  | AttributeError
  | KeyError
  | IndexError
  | OSError
  | JSONDecodeError
  | UnicodeDecodeError
  | RecursionError

definition bind_exc :: "py_error + 'a \<Rightarrow> ('a \<Rightarrow> py_error + 'b) \<Rightarrow> py_error + 'b" where
  "bind_exc m f = (case m of Inl e \<Rightarrow> Inl e | Inr x \<Rightarrow> f x)"

text \<open>
  \<^verbatim>\<open>isinstance(v, str)\<close>. The tests \<^verbatim>\<open>isinstance(v, list)\<close> and
  \<^verbatim>\<open>isinstance(v, dict)\<close> are case distinctions on the constructor.
\<close>

fun is_str :: "json \<Rightarrow> bool" where
  "is_str (JStr s) = True"
| "is_str v = False"

text \<open>
  \<^verbatim>\<open>isinstance(v, int)\<close>: in Python \<^verbatim>\<open>bool\<close> is a subclass of \<^verbatim>\<open>int\<close>, so the
  test holds of \<^verbatim>\<open>True\<close> and \<^verbatim>\<open>False\<close> too.
\<close>

fun is_int :: "json \<Rightarrow> bool" where
  "is_int (JInt i) = True"
| "is_int (JBool b) = True"
| "is_int v = False"

text \<open>\<^verbatim>\<open>v == 1\<close>: \<^verbatim>\<open>True == 1\<close> and \<^verbatim>\<open>1.0 == 1\<close> hold in Python.\<close>

fun eq_one :: "json \<Rightarrow> bool" where
  "eq_one (JInt i) = (i = 1)"
| "eq_one (JBool b) = b"
| "eq_one (JFloat f) = (f = Finite 1)"
| "eq_one v = False"

text \<open>The truth value of a value, as \<^verbatim>\<open>if v:\<close> and \<^verbatim>\<open>v or d\<close> test it.\<close>

fun truthy :: "json \<Rightarrow> bool" where
  "truthy JNull = False"
| "truthy (JBool b) = b"
| "truthy (JInt i) = (i \<noteq> 0)"
| "truthy (JFloat f) = (f \<noteq> Finite 0)"
| "truthy (JStr s) = (s \<noteq> [])"
| "truthy (JList xs) = (xs \<noteq> [])"
| "truthy (JObj d) = (d \<noteq> [])"

text \<open>\<^verbatim>\<open>d.get(key, default)\<close> on a dict.\<close>

definition dict_get :: "(string \<times> json) list \<Rightarrow> string \<Rightarrow> json \<Rightarrow> json" where
  "dict_get d key dflt = (case map_of d key of None \<Rightarrow> dflt | Some v \<Rightarrow> v)"

text \<open>\<^verbatim>\<open>v.get(key, default)\<close> on any value: only a dict has the method.\<close>

definition py_get :: "json \<Rightarrow> string \<Rightarrow> json \<Rightarrow> py_error + json" where
  "py_get v key dflt = (case v of JObj d \<Rightarrow> Inr (dict_get d key dflt) | _ \<Rightarrow> Inl AttributeError)"

text \<open>
  \<^verbatim>\<open>v[0]\<close>: the first item of a list, the first character of a string (a string of
  length one); a dict from \<^verbatim>\<open>json.load\<close> has string keys only, so the key \<^verbatim>\<open>0\<close> is
  missing; the other values cannot be subscripted.
\<close>

definition subscript0 :: "json \<Rightarrow> py_error + json" where
  "subscript0 v = (case v of
      JList xs \<Rightarrow> (case xs of [] \<Rightarrow> Inl IndexError | x # rest \<Rightarrow> Inr x)
    | JStr s \<Rightarrow> (case s of [] \<Rightarrow> Inl IndexError | c # rest \<Rightarrow> Inr (JStr [c]))
    | JObj d \<Rightarrow> Inl KeyError
    | _ \<Rightarrow> Inl TypeError)"

text \<open>\<^verbatim>\<open>sep.join(xs)\<close> on a list of strings.\<close>

fun join :: "string \<Rightarrow> string list \<Rightarrow> string" where
  "join sep [] = []"
| "join sep [x] = x"
| "join sep (x # y # ys) = x @ sep @ join sep (y # ys)"

fun str_of :: "json \<Rightarrow> string" where
  "str_of (JStr s) = s"
| "str_of v = []"

text \<open>
  \<^verbatim>\<open>sep.join(v)\<close> on any value: a list is joined when all its items are strings
  (TypeError otherwise), a string is iterated by character, a dict by key;
  \<^verbatim>\<open>None\<close>, booleans and numbers are not iterable.
\<close>

definition py_join :: "string \<Rightarrow> json \<Rightarrow> py_error + string" where
  "py_join sep v = (case v of
      JList xs \<Rightarrow> if list_all is_str xs then Inr (join sep (map str_of xs)) else Inl TypeError
    | JStr s \<Rightarrow> Inr (join sep (map (\<lambda>c. [c]) s))
    | JObj d \<Rightarrow> Inr (join sep (map fst d))
    | _ \<Rightarrow> Inl TypeError)"

text \<open>The decimal numeral of a natural number, as an f-string prints an index.\<close>

fun decimal :: "nat \<Rightarrow> string" where
  "decimal n = (if n < 10 then [''0123456789'' ! n] else decimal (n div 10) @ [''0123456789'' ! (n mod 10)])"

declare decimal.simps [simp del]

section \<open>The schema check: \<^verbatim>\<open>validate_plugin_json\<close>\<close>

definition REQUIRED_KEYS :: "string list" where
  "REQUIRED_KEYS =
     [''SchemaVersion'', ''Name'', ''Description'', ''Company'', ''SiteURL'',
      ''Architectures'', ''OperatingSystems'']"

definition VALID_ARCHITECTURES :: "string list" where
  "VALID_ARCHITECTURES = [''x64'', ''aarch64'']"

definition VALID_OPERATING_SYSTEMS :: "string list" where
  "VALID_OPERATING_SYSTEMS = [''Windows'', ''Linux'']"

text \<open>
  The error messages of the validator, one constructor per message of the source, with
  the values the message prints:
  \<^item> \<open>RootMustBeObject\<close>: \<^verbatim>\<open>root must be a JSON object\<close>;
  \<^item> \<open>MissingRequiredKey k\<close>: \<^verbatim>\<open>missing required key: 'k'\<close>;
  \<^item> \<open>SchemaVersionMustBeInteger1\<close>: \<^verbatim>\<open>SchemaVersion must be the integer 1\<close>;
  \<^item> \<open>MustBeString k\<close>: \<^verbatim>\<open>'k' must be a string\<close>;
  \<^item> \<open>MustBeArray k\<close>: \<^verbatim>\<open>'k' must be an array\<close>;
  \<^item> \<open>ItemMustBeString k i\<close>: \<^verbatim>\<open>'k'[i] must be a string\<close>;
  \<^item> \<open>ArchitecturesInvalid xs\<close>: \<^verbatim>\<open>Architectures must only contain [...]; invalid: [...]\<close>,
    where \<open>xs\<close> are the invalid items in the order of the array (the message prints them
    without repetitions and sorted);
  \<^item> \<open>OperatingSystemsInvalid xs\<close>: the same for \<^verbatim>\<open>OperatingSystems\<close>;
  \<^item> \<open>ImagesMustBeArray\<close>: \<^verbatim>\<open>Images must be an array\<close>;
  \<^item> \<open>ImageMustBeObject i\<close>: \<^verbatim>\<open>Images[i] must be an object\<close>;
  \<^item> \<open>ImagePathMustBeString i\<close>: \<^verbatim>\<open>Images[i].Path must be a string\<close>;
  \<^item> \<open>ImageDescriptionMustBeString i\<close>: \<^verbatim>\<open>Images[i].Description must be a string\<close>.
\<close>

datatype verr =
    RootMustBeObject
  | MissingRequiredKey string
  | SchemaVersionMustBeInteger1
  | MustBeString string
  | MustBeArray string
  | ItemMustBeString string nat
  | ArchitecturesInvalid "json list"
  | OperatingSystemsInvalid "json list"
  | ImagesMustBeArray
  | ImageMustBeObject nat
  | ImagePathMustBeString nat
  | ImageDescriptionMustBeString nat

text \<open>Lines 26-28: the required keys that are missing.\<close>

definition missing_key_errors :: "(string \<times> json) list \<Rightarrow> verr list" where
  "missing_key_errors d = map MissingRequiredKey (filter (\<lambda>key. map_of d key = None) REQUIRED_KEYS)"

text \<open>Lines 30-33.\<close>

definition schema_version_errors :: "(string \<times> json) list \<Rightarrow> verr list" where
  "schema_version_errors d = (case map_of d ''SchemaVersion'' of
      None \<Rightarrow> []
    | Some v \<Rightarrow> if \<not> is_int v \<or> \<not> eq_one v then [SchemaVersionMustBeInteger1] else [])"

text \<open>
  Lines 35-37 and 71-73: a key of \<open>keys\<close> that is present with a value that is neither
  \<^verbatim>\<open>None\<close> nor a string.
\<close>

definition not_string_or_none :: "(string \<times> json) list \<Rightarrow> string \<Rightarrow> bool" where
  "not_string_or_none d key = (case map_of d key of
      None \<Rightarrow> False
    | Some v \<Rightarrow> v \<noteq> JNull \<and> \<not> is_str v)"

definition string_field_errors :: "(string \<times> json) list \<Rightarrow> string list \<Rightarrow> verr list" where
  "string_field_errors d keys = map MustBeString (filter (not_string_or_none d) keys)"

text \<open>
  Lines 49 and 53 build \<^verbatim>\<open>set(val)\<close>: a list or a dict among the items is
  unhashable, and \<^verbatim>\<open>set\<close> raises TypeError.
\<close>

fun hashable :: "json \<Rightarrow> bool" where
  "hashable (JList xs) = False"
| "hashable (JObj d) = False"
| "hashable v = True"

text \<open>
  Lines 51 and 55 call \<^verbatim>\<open>sorted(invalid)\<close> on the set of invalid items.
  \<^verbatim>\<open>sorted\<close> compares the items with \<^verbatim>\<open><\<close>: numbers (booleans included) compare
  with numbers and strings with strings; a comparison across these kinds, or with
  \<^verbatim>\<open>None\<close>, raises TypeError. The set holds \<^verbatim>\<open>None\<close> at most once, so the
  sort raises when the items are not all of one kind.
\<close>

datatype sort_kind = NoneKind | NumberKind | StrKind | ListKind | DictKind

fun sort_kind_of :: "json \<Rightarrow> sort_kind" where
  "sort_kind_of JNull = NoneKind"
| "sort_kind_of (JBool b) = NumberKind"
| "sort_kind_of (JInt i) = NumberKind"
| "sort_kind_of (JFloat f) = NumberKind"
| "sort_kind_of (JStr s) = StrKind"
| "sort_kind_of (JList xs) = ListKind"
| "sort_kind_of (JObj d) = DictKind"

definition sorted_raises :: "json list \<Rightarrow> bool" where
  "sorted_raises xs = (case xs of
      [] \<Rightarrow> False
    | x # rest \<Rightarrow> list_ex (\<lambda>y. sort_kind_of y \<noteq> sort_kind_of x) rest)"

text \<open>
  Lines 39-55, one round of the loop over \<^verbatim>\<open>("Architectures", "OperatingSystems")\<close>:
  the errors the round appends, or the TypeError it raises.
\<close>

definition enum_list_errors :: "(string \<times> json) list \<Rightarrow> string \<Rightarrow> py_error + verr list" where
  "enum_list_errors d key = (case map_of d key of
      None \<Rightarrow> Inr []
    | Some val \<Rightarrow> (case val of
        JList items \<Rightarrow>
          (let item_errors =
                 map (\<lambda>(i, item). ItemMustBeString key i)
                   (filter (\<lambda>(i, item). \<not> is_str item) (enumerate 0 items))
           in if key = ''Architectures'' then
                if \<not> list_all hashable items then Inl TypeError
                else (let invalid = filter (\<lambda>x. x \<notin> set (map JStr VALID_ARCHITECTURES)) items
                      in if invalid = [] then Inr item_errors
                         else if sorted_raises invalid then Inl TypeError
                         else Inr (item_errors @ [ArchitecturesInvalid invalid]))
              else if key = ''OperatingSystems'' then
                if \<not> list_all hashable items then Inl TypeError
                else (let invalid = filter (\<lambda>x. x \<notin> set (map JStr VALID_OPERATING_SYSTEMS)) items
                      in if invalid = [] then Inr item_errors
                         else if sorted_raises invalid then Inl TypeError
                         else Inr (item_errors @ [OperatingSystemsInvalid invalid]))
              else Inr item_errors)
      | _ \<Rightarrow> Inr [MustBeArray key]))"

text \<open>Lines 62-69, one entry of \<^verbatim>\<open>Images\<close>.\<close>

definition image_entry_errors :: "nat \<times> json \<Rightarrow> verr list" where
  "image_entry_errors ie = (case ie of (i, entry) \<Rightarrow> (case entry of
      JObj e \<Rightarrow>
        (if not_string_or_none e ''Path'' then [ImagePathMustBeString i] else []) @
        (if not_string_or_none e ''Description'' then [ImageDescriptionMustBeString i] else [])
    | _ \<Rightarrow> [ImageMustBeObject i]))"

text \<open>Lines 57-69.\<close>

definition images_errors :: "(string \<times> json) list \<Rightarrow> verr list" where
  "images_errors d = (case map_of d ''Images'' of
      None \<Rightarrow> []
    | Some img \<Rightarrow> (case img of
        JList entries \<Rightarrow> concat (map image_entry_errors (enumerate 0 entries))
      | _ \<Rightarrow> [ImagesMustBeArray]))"

text \<open>
  \<^verbatim>\<open>validate_plugin_json(data)\<close>: the list of error messages in the order the source
  appends them, or the exception that leaves the function.
\<close>

definition validate_plugin_json :: "json \<Rightarrow> py_error + verr list" where
  "validate_plugin_json data = (case data of
      JObj d \<Rightarrow>
        bind_exc (enum_list_errors d ''Architectures'') (\<lambda>arch_errors.
        bind_exc (enum_list_errors d ''OperatingSystems'') (\<lambda>os_errors.
          Inr (missing_key_errors d @ schema_version_errors d @
               string_field_errors d [''Name'', ''Description'', ''Company'', ''SiteURL''] @
               arch_errors @ os_errors @ images_errors d @
               string_field_errors d [''MinNsightSystemsVersion'', ''SetupNotes''])))
    | _ \<Rightarrow> Inr [RootMustBeObject])"

section \<open>Rendering: \<^verbatim>\<open>escape\<close> and \<^verbatim>\<open>build_html\<close>\<close>

text \<open>Text that is HTML already: an escaped value, or markup built around escaped values.\<close>

type_synonym html = string

text \<open>
  \<^verbatim>\<open>s.replace(old, new)\<close> for a one-character \<open>old\<close>, which is how \<^verbatim>\<open>escape\<close>
  calls it: every occurrence of the character is replaced.
\<close>

definition replace :: "char \<Rightarrow> string \<Rightarrow> string \<Rightarrow> string" where
  "replace old new s = concat (map (\<lambda>c. if c = old then new else [c]) s)"

text \<open>Lines 106-113: the four replacements, in the order of the source.\<close>

definition escape :: "string \<Rightarrow> string" where
  "escape s =
     replace (CHR 0x22) ''&quot;''
       (replace (CHR ''>'') ''&gt;''
         (replace (CHR ''<'') ''&lt;''
           (replace (CHR ''&'') ''&amp;'' s)))"

text \<open>
  \<^verbatim>\<open>escape(v)\<close> on any value: only a string has the method \<^verbatim>\<open>replace\<close>, so every
  other value raises AttributeError.
\<close>

definition py_escape :: "json \<Rightarrow> py_error + string" where
  "py_escape v = (case v of JStr s \<Rightarrow> Inr (escape s) | _ \<Rightarrow> Inl AttributeError)"

text \<open>
  \<^verbatim>\<open>str(v)\<close>: a string is itself and \<^verbatim>\<open>None\<close> prints as \<^verbatim>\<open>None\<close>. What Python
  prints for the other values (numbers, lists, dicts) is a parameter \<open>repr\<close>.
\<close>

definition py_str :: "(json \<Rightarrow> string) \<Rightarrow> json \<Rightarrow> string" where
  "py_str repr v = (case v of JStr s \<Rightarrow> s | JNull \<Rightarrow> ''None'' | _ \<Rightarrow> repr v)"

text \<open>
  Lines 133-141: the markup of the image of a plugin, \<^verbatim>\<open>img_html\<close>, from the dict
  \<open>p\<close> of the plugin and its escaped name.
\<close>

definition plugin_img_html :: "(string \<times> json) list \<Rightarrow> html \<Rightarrow> py_error + html" where
  \<open>plugin_img_html p name =
     (let images = (if truthy (dict_get p ''Images'' JNull) then dict_get p ''Images'' JNull else JList [])
      in if truthy images then
           bind_exc (subscript0 images) (\<lambda>first.
           bind_exc (py_get first ''Path'' (JStr [])) (\<lambda>path.
           bind_exc (py_get first ''Description'' (JStr name)) (\<lambda>description.
           bind_exc (py_escape description) (\<lambda>alt.
             if truthy path then
               bind_exc (py_escape path) (\<lambda>path_esc.
                 Inr (''<a href="'' @ path_esc @ ''"><img src="'' @ path_esc @ ''" alt="'' @ alt @
                      ''" class="plugin-img" /></a>''))
             else Inr []))))
         else Inr [])\<close>

text \<open>Line 125: the row of the table of contents.\<close>

definition toc_row :: "string \<Rightarrow> html \<Rightarrow> html" where
  \<open>toc_row anchor_id name =
     ''        <li><a href="#'' @ anchor_id @ ''">'' @ name @ ''</a></li>''\<close>

text \<open>Lines 144-159: the card of a plugin.\<close>

definition plugin_card ::
  "string \<Rightarrow> html \<Rightarrow> html \<Rightarrow> html \<Rightarrow> string \<Rightarrow> string \<Rightarrow> html \<Rightarrow> html \<Rightarrow> html \<Rightarrow> html \<Rightarrow> html"
where
  \<open>plugin_card anchor_id name desc img_html archs oses min_ver setup_notes site_link company =
     ''\<newline>'' @
     ''        <article class="plugin-card" id="'' @
     anchor_id @
     ''">\<newline>'' @
     ''            <div class="plugin-header">\<newline>'' @
     ''                <h2>'' @
     name @
     ''</h2>\<newline>'' @
     ''            </div>\<newline>'' @
     ''            <p class="plugin-desc">'' @
     desc @
     ''</p>\<newline>'' @
     ''            '' @
     (if img_html \<noteq> [] then ''<div class="plugin-thumb">'' @ img_html @ ''</div>'' else []) @
     ''\<newline>'' @
     ''            <dl class="plugin-meta">\<newline>'' @
     ''                <dt>Architectures</dt><dd>'' @
     (if escape archs \<noteq> [] then escape archs else ''-'') @
     ''</dd>\<newline>'' @
     ''                <dt>Operating systems</dt><dd>'' @
     (if escape oses \<noteq> [] then escape oses else ''-'') @
     ''</dd>\<newline>'' @
     ''                '' @
     (if min_ver \<noteq> [] then ''<dt>Minimal Nsight Systems version</dt><dd>'' @ min_ver @ ''</dd>'' else []) @
     ''\<newline>'' @
     ''                '' @
     (if setup_notes \<noteq> [] then ''<dt>Setup Notes</dt><dd>'' @ setup_notes @ ''</dd>'' else []) @
     ''\<newline>'' @
     ''                <dt>Site URL</dt><dd>'' @
     (if site_link \<noteq> [] then ''<p class="plugin-link">'' @ site_link @ ''</p>'' else []) @
     ''</dd>\<newline>'' @
     ''                <dt>Company</dt><dd>'' @
     company @
     ''</dd>\<newline>'' @
     ''            </dl>\<newline>'' @
     ''        </article>''\<close>

text \<open>
  Lines 122-160, one round of the loop over the plugins: the row of the table of
  contents and the card of plugin \<open>p\<close> at index \<open>i\<close>, or the exception the round raises.
\<close>

definition plugin_rows :: "(json \<Rightarrow> string) \<Rightarrow> nat \<Rightarrow> json \<Rightarrow> py_error + string \<times> string" where
  \<open>plugin_rows repr i plugin = (case plugin of
      JObj p \<Rightarrow>
        bind_exc (py_escape (dict_get p ''Company'' (JStr ''Unnamed''))) (\<lambda>company.
        bind_exc (py_escape (dict_get p ''Name'' (JStr ''Unnamed''))) (\<lambda>name.
        bind_exc (py_escape (dict_get p ''Description'' (JStr []))) (\<lambda>desc.
        bind_exc (py_escape (dict_get p ''SiteURL'' (JStr []))) (\<lambda>site_esc.
        bind_exc (py_join '', '' (dict_get p ''Architectures'' (JList []))) (\<lambda>archs.
        bind_exc (py_join '', '' (dict_get p ''OperatingSystems'' (JList []))) (\<lambda>oses.
        bind_exc (py_escape (dict_get p ''SetupNotes'' (JStr []))) (\<lambda>setup_notes.
        bind_exc (plugin_img_html p name) (\<lambda>img_html.
          (let anchor_id = ''plugin-'' @ decimal i;
               min_ver = escape (py_str repr (dict_get p ''MinNsightSystemsVersion'' (JStr [])));
               site_link =
                 (if truthy (dict_get p ''SiteURL'' (JStr []))
                  then ''<a href="'' @ site_esc @ ''" rel="noopener noreferrer">'' @ site_esc @ ''</a>''
                  else [])
           in Inr (toc_row anchor_id name,
                   plugin_card anchor_id name desc img_html archs oses min_ver setup_notes
                     site_link company))))))))))
    | _ \<Rightarrow> Inl AttributeError)\<close>

text \<open>
  The loop of lines 121-160: the rows of all plugins, numbered from \<open>i\<close>; the first
  exception ends the loop.
\<close>

fun build_rows :: "(json \<Rightarrow> string) \<Rightarrow> nat \<Rightarrow> json list \<Rightarrow> py_error + (string \<times> string) list" where
  "build_rows repr i [] = Inr []"
| "build_rows repr i (p # ps) =
     bind_exc (plugin_rows repr i p) (\<lambda>row.
     bind_exc (build_rows repr (Suc i) ps) (\<lambda>rows. Inr (row # rows)))"

text \<open>Lines 163-222: the page around the table of contents and the cards.\<close>

definition page_before_title :: string where
  \<open>page_before_title =
     ''<!DOCTYPE html>\<newline>'' @
     ''<html lang="en">\<newline>'' @
     ''<head>\<newline>'' @
     ''    <meta charset="UTF-8" />\<newline>'' @
     ''    <meta name="viewport" content="width=device-width, initial-scale=1" />\<newline>'' @
     ''    <title>''\<close>

definition page_before_heading :: string where
  \<open>page_before_heading =
     ''</title>\<newline>'' @
     ''    <link rel="icon" type="image/x-icon" href="./Images/nvidia-favicon.ico">\<newline>'' @
     ''    <style>\<newline>'' @
     ''        :root { font-family: system-ui, sans-serif; line-height: 1.5; color: #1a1a1a; background: #f5f5f5; }\<newline>'' @
     ''        body { max-width: 720px; margin: 0 auto; padding: 1.5rem; }\<newline>'' @
     ''        .page-header { display: flex; align-items: center; gap: 1rem; margin-bottom: 0.5rem; }\<newline>'' @
     ''        .page-header img { height: 5rem; width: auto; display: block; margin-left: -1.5rem; }\<newline>'' @
     ''        h1 { margin: 0; }\<newline>'' @
     ''        .toc { background: #fff; border-radius: 8px; padding: 1rem 1.25rem; margin-bottom: 1.5rem; box-shadow: 0 1px 3px rgba(0,0,0,0.08); }\<newline>'' @
     ''        .toc ul { margin: 0; padding-left: 1.5rem; }\<newline>'' @
     ''        .toc li { margin: 0.35rem 0; }\<newline>'' @
     ''        .toc a { color: #0066cc; text-decoration: none; }\<newline>'' @
     ''        .toc a:hover { text-decoration: underline; }\<newline>'' @
     ''        .plugin-card { background: #fff; border-radius: 8px; padding: 1.25rem; margin-bottom: 1.5rem; box-shadow: 0 1px 3px rgba(0,0,0,0.08); }\<newline>'' @
     ''        .plugin-header { display: flex; align-items: flex-start; gap: 1rem; flex-wrap: wrap; }\<newline>'' @
     ''        .plugin-header h2 { margin: 0 0 0.5rem 0; font-size: 1.25rem; }\<newline>'' @
     ''        .plugin-thumb { flex-shrink: 0; }\<newline>'' @
     ''        .plugin-thumb a { text-decoration: none; display: inline-block; }\<newline>'' @
     ''        .plugin-img { max-width: 700px; max-height: 300px; object-fit: contain; border-radius: 4px; }\<newline>'' @
     ''        .plugin-desc { margin: 0.5rem 0; color: #333; }\<newline>'' @
     ''        .plugin-meta { margin: 0.75rem 0; font-size: 0.9rem; }\<newline>'' @
     ''        .plugin-meta dt { font-weight: 600; margin-top: 0.25rem; }\<newline>'' @
     ''        .plugin-meta dd { margin: 0 0 0 1rem; }\<newline>'' @
     ''        .plugin-link { margin: 0.5rem 0 0 0; }\<newline>'' @
     ''        .plugin-link a { color: #0066cc; }\<newline>'' @
     ''    </style>\<newline>'' @
     ''</head>\<newline>'' @
     ''<body>\<newline>'' @
     ''    <header class="page-header">\<newline>'' @
     ''        <img src="./Images/nvidia-logo-horiz-rgb-blk-for-screen.svg" alt="NVIDIA" />\<newline>'' @
     ''    </header>\<newline>'' @
     ''    <h1>''\<close>

definition page_before_toc :: string where
  \<open>page_before_toc =
     ''</h1>\<newline>'' @
     ''    <p>This site lists Nsight Systems third-party plugins.<p>\<newline>'' @
     ''    <ul>\<newline>'' @
     ''        <li>For information about Nsight Systems, visit the <a href="https://developer.nvidia.com/nsight-systems" target="_blank" rel="noopener noreferrer">Nsight Systems website</a>.</li>\<newline>'' @
     ''        <li>To add a third-party plugin to this list, refer to the instructions provided in the <a href="https://github.com/NVIDIA/NsightSystemsPlugins/blob/main/ADD_PLUGIN.md" target="_blank" rel="noopener noreferrer">ADD_PLUGIN.md file.</a> file.</li>\<newline>'' @
     ''    </ul>\<newline>'' @
     ''    <nav class="toc" aria-label="Plugin list">\<newline>'' @
     ''    <p><b>Table of Contents</b></p>\<newline>'' @
     ''        <ul>\<newline>'' @
     ''            ''\<close>

definition page_before_body :: string where
  \<open>page_before_body =
     ''\<newline>'' @
     ''        </ul>\<newline>'' @
     ''        <p><a href="#legal-disclaimer">Legal Disclaimer</a></p>\<newline>'' @
     ''    </nav>\<newline>''\<close>

definition page_after_body :: string where
  \<open>page_after_body =
     ''\<newline>'' @
     ''<article class="plugin-card" id="legal-disclaimer">\<newline>'' @
     ''<p><b>Legal Disclaimer</b></p>\<newline>'' @
     ''    <p>The plugins made available on this site are third-party projects provided solely as a convenience and resource for developers. These plugins are not developed, reviewed, tested, modified, or endorsed by us.</p>\<newline>'' @
     ''    <p>Third-party plugins may contain errors, security vulnerabilities, or functionality that is inaccurate, incomplete, or otherwise undesirable. By downloading or using any plugin, you acknowledge and agree that you do so at your own risk. We disclaim all responsibility and liability for any harm, damage, or loss arising from the use of these plugins.</p>\<newline>'' @
     ''    <p>Use of any plugin is subject to the applicable third-party license terms, and you are solely responsible for complying with those terms.</p>\<newline>'' @
     ''    <p>We do not provide support, updates, or security fixes for these plugins.</p>\<newline>'' @
     ''</article>\<newline>'' @
     ''</body>\<newline>'' @
     ''</html>\<newline>''\<close>

definition title :: string where
  "title = ''Nsight Systems Plugins''"

definition html_page :: "string \<Rightarrow> string \<Rightarrow> string" where
  "html_page toc body =
     page_before_title @ title @ page_before_heading @ title @ page_before_toc @ toc @
     page_before_body @ body @ page_after_body"

text \<open>Lines 118-222: the text of the page for a list of plugins.\<close>

definition render_html :: "(json \<Rightarrow> string) \<Rightarrow> json list \<Rightarrow> py_error + string" where
  "render_html repr plugins =
     bind_exc (build_rows repr 0 plugins) (\<lambda>rows.
       Inr (html_page (join ''\<newline>'' (map fst rows)) (join ''\<newline>'' (map snd rows))))"

section \<open>The environment of a run\<close>

text \<open>
  A path is the list of its parts below the root, as \<^verbatim>\<open>pathlib\<close> compares paths part
  by part; \<open>butlast\<close> is \<^verbatim>\<open>.parent\<close> and \<open>dir @ [name]\<close> is \<^verbatim>\<open>dir / name\<close>.
\<close>

type_synonym path = "string list"

text \<open>
  What \<^verbatim>\<open>open(path, encoding="utf-8")\<close> followed by \<^verbatim>\<open>json.load(f)\<close> does on a
  path: it returns the parsed value, or it raises an exception with a message
  (OSError when the file cannot be opened, JSONDecodeError when the text is not JSON,
  UnicodeDecodeError when the bytes are not UTF-8, RecursionError when the nesting is
  too deep).
\<close>

datatype load_outcome = Loads json | Raises py_error string

text \<open>
  The file system and the Python runtime as the script sees them:
  \<^item> \<open>resolve\<close>: \<^verbatim>\<open>Path.resolve()\<close>;
  \<^item> \<open>is_dir\<close>: \<^verbatim>\<open>Path.is_dir()\<close>;
  \<^item> \<open>listdir\<close>: the names of the entries of a directory, in the order the system
    enumerates them;
  \<^item> \<open>load\<close>: opening and parsing a file;
  \<^item> \<open>mkdir_fails\<close>, \<open>write_fails\<close>: whether \<^verbatim>\<open>mkdir(parents=True, exist_ok=True)\<close>
    and \<^verbatim>\<open>write_text\<close> raise OSError on a path;
  \<^item> \<open>py_repr\<close>: what \<^verbatim>\<open>str\<close> prints for a value that is neither a string nor
    \<^verbatim>\<open>None\<close>.
\<close>

record env =
  resolve :: "path \<Rightarrow> path"
  is_dir :: "path \<Rightarrow> bool"
  listdir :: "path \<Rightarrow> string list"
  load :: "path \<Rightarrow> load_outcome"
  mkdir_fails :: "path \<Rightarrow> bool"
  write_fails :: "path \<Rightarrow> bool"
  py_repr :: "json \<Rightarrow> string"

text \<open>
  What a run does to the outside, in order: a line printed to a stream, a call of
  \<^verbatim>\<open>mkdir(parents=True, exist_ok=True)\<close>, a call of \<^verbatim>\<open>write_text\<close>. A message is
  one constructor per \<^verbatim>\<open>print\<close> of the source, with the values it prints:
  \<^item> \<open>NotADirectory p\<close>: \<^verbatim>\<open>Error: not a directory: p\<close>;
  \<^item> \<open>OutputFileNotSpecified\<close>: \<^verbatim>\<open>Error: --output-file was not specified\<close>;
  \<^item> \<open>NoPluginFilesFound\<close>: \<^verbatim>\<open>No plugin JSON files found.\<close>;
  \<^item> \<open>Wrote p n\<close>: \<^verbatim>\<open>Wrote p (n plugin(s))\<close>;
  \<^item> \<open>FailedToParse p e\<close>: \<^verbatim>\<open>Error: failed to parse p: e\<close>;
  \<^item> \<open>FailedToLoad p\<close>: \<^verbatim>\<open>Error: failed to load p:\<close>;
  \<^item> \<open>InvalidFormat p\<close>: \<^verbatim>\<open>Error: invalid format in p:\<close>;
  \<^item> \<open>ValidationError err\<close>: the line \<^verbatim>\<open>  - err\<close>.
\<close>

datatype stream = Stdout | Stderr

datatype message =
    NotADirectory path
  | OutputFileNotSpecified
  | NoPluginFilesFound
  | Wrote path nat
  | FailedToParse path string
  | FailedToLoad path
  | InvalidFormat path
  | ValidationError verr

datatype event =
    Print stream message
  | MkdirParents path
  | WriteText path string

text \<open>
  A function with effects returns its result (or the exception it raises) and the
  events it caused; the events before an exception stay.
\<close>

type_synonym 'a io = "(py_error + 'a) \<times> event list"

definition after :: "event list \<Rightarrow> 'a io \<Rightarrow> 'a io" where
  "after evs r = (fst r, evs @ snd r)"

section \<open>Reading the directory: \<^verbatim>\<open>load_plugin_json\<close> and \<^verbatim>\<open>collect_plugins\<close>\<close>

text \<open>
  Lines 78-85. The \<^verbatim>\<open>except\<close> clause catches OSError and JSONDecodeError only; the
  function then prints and returns \<^verbatim>\<open>None\<close>. A file whose text is \<^verbatim>\<open>null\<close>
  loads as \<^verbatim>\<open>None\<close> too.
\<close>

definition load_plugin_json :: "env \<Rightarrow> path \<Rightarrow> json io" where
  "load_plugin_json w path = (case load w path of
      Loads v \<Rightarrow> (Inr v, [])
    | Raises e msg \<Rightarrow>
        if e = OSError \<or> e = JSONDecodeError
        then (Inr JNull, [Print Stderr (FailedToParse path msg)])
        else (Inl e, []))"

text \<open>
  The pattern \<^verbatim>\<open>*.json\<close>: the name ends with \<^verbatim>\<open>.json\<close>. The star matches
  any text, the empty one and a leading dot included, and letters match by case, as
  on a POSIX file system.
\<close>

definition matches_json :: "string \<Rightarrow> bool" where
  "matches_json name = (drop (length name - 5) name = ''.json'')"

text \<open>\<^verbatim>\<open>input_dir.glob("*.json")\<close>: the entries of the directory whose name matches.\<close>

definition glob_json :: "env \<Rightarrow> path \<Rightarrow> path list" where
  "glob_json w dir = map (\<lambda>name. dir @ [name]) (filter matches_json (listdir w dir))"

text \<open>
  Lines 91-102, the loop over the sorted paths; \<open>plugins\<close> is the list built so far.
\<close>

fun collect_loop :: "env \<Rightarrow> path list \<Rightarrow> json list \<Rightarrow> json list io" where
  "collect_loop w [] plugins = (Inr plugins, [])"
| "collect_loop w (path # rest) plugins =
     (case load_plugin_json w path of
        (Inl e, evs) \<Rightarrow> (Inl e, evs)
      | (Inr data, evs) \<Rightarrow>
          if data = JNull then
            after (evs @ [Print Stderr (FailedToLoad path)]) (collect_loop w rest plugins)
          else (case validate_plugin_json data of
              Inl e \<Rightarrow> (Inl e, evs)
            | Inr validation_errors \<Rightarrow>
                if validation_errors \<noteq> [] then
                  after (evs @ [Print Stderr (InvalidFormat path)] @
                         map (\<lambda>err. Print Stderr (ValidationError err)) validation_errors)
                    (collect_loop w rest plugins)
                else after evs (collect_loop w rest (plugins @ [data]))))"

text \<open>Lines 88-103.\<close>

definition collect_plugins :: "env \<Rightarrow> path \<Rightarrow> json list io" where
  "collect_plugins w input_dir = collect_loop w (sort (glob_json w input_dir)) []"

section \<open>Writing the page: \<^verbatim>\<open>build_html\<close> and \<^verbatim>\<open>main\<close>\<close>

text \<open>
  Lines 116-224: the page is rendered, the parent directory is made, the file is
  written. An exception of the rendering leaves before any call to the file system.
\<close>

definition build_html :: "env \<Rightarrow> json list \<Rightarrow> path \<Rightarrow> unit io" where
  "build_html w plugins output_file_path = (case render_html (py_repr w) plugins of
      Inl e \<Rightarrow> (Inl e, [])
    | Inr html \<Rightarrow>
        if mkdir_fails w (butlast output_file_path) then
          (Inl OSError, [MkdirParents (butlast output_file_path)])
        else if write_fails w output_file_path then
          (Inl OSError, [MkdirParents (butlast output_file_path), WriteText output_file_path html])
        else
          (Inr (), [MkdirParents (butlast output_file_path), WriteText output_file_path html]))"

text \<open>
  The parsed command line: \<^verbatim>\<open>--input-dir\<close> and \<^verbatim>\<open>--output-file\<close>, each
  \<^verbatim>\<open>None\<close> when the flag is not given.
\<close>

record args =
  input_dir :: "path option"
  output_file :: "path option"

text \<open>
  Lines 244-263: the exit status \<^verbatim>\<open>main\<close> returns, or the exception that leaves
  it. With no \<^verbatim>\<open>--input-dir\<close>, \<^verbatim>\<open>args.input_dir.resolve()\<close> is a method call on
  \<^verbatim>\<open>None\<close>.
\<close>

definition main :: "env \<Rightarrow> args \<Rightarrow> int io" where
  "main w a = (case input_dir a of
      None \<Rightarrow> (Inl AttributeError, [])
    | Some d \<Rightarrow>
        if \<not> is_dir w (resolve w d) then
          (Inr 1, [Print Stderr (NotADirectory (resolve w d))])
        else (case output_file a of
            None \<Rightarrow> (Inr 1, [Print Stdout OutputFileNotSpecified])
          | Some out \<Rightarrow>
              (case collect_plugins w (resolve w d) of
                 (Inl e, evs) \<Rightarrow> (Inl e, evs)
               | (Inr plugins, evs) \<Rightarrow>
                   if plugins = [] then (Inr 1, evs @ [Print Stderr NoPluginFilesFound])
                   else (case build_html w plugins (resolve w out) of
                       (Inl e, evs') \<Rightarrow> (Inl e, evs @ evs')
                     | (Inr u, evs') \<Rightarrow>
                         (Inr 0, evs @ evs' @
                            [Print Stdout (Wrote (resolve w out) (length plugins))])))))"

section \<open>Predicates of the specification and example inputs\<close>

text \<open>
  The entity \<^verbatim>\<open>escape\<close> writes for a character, and the test that a text starts
  with one of the four entities.
\<close>

definition html_entity :: "char \<Rightarrow> string" where
  "html_entity c =
     (if c = CHR ''&'' then ''&amp;''
      else if c = CHR ''<'' then ''&lt;''
      else if c = CHR ''>'' then ''&gt;''
      else if c = CHR 0x22 then ''&quot;''
      else [c])"

definition starts_entity :: "string \<Rightarrow> bool" where
  "starts_entity t =
     (take 5 t = ''&amp;'' \<or> take 4 t = ''&lt;'' \<or> take 4 t = ''&gt;'' \<or> take 6 t = ''&quot;'')"

text \<open>
  The schema as the specification words it: a dict with the seven required keys, whose
  \<^verbatim>\<open>SchemaVersion\<close> is the integer 1, whose text fields are strings or null when
  present, whose \<^verbatim>\<open>Architectures\<close> and \<^verbatim>\<open>OperatingSystems\<close> are lists of the
  allowed strings, and whose \<^verbatim>\<open>Images\<close>, when present, is a list of objects with
  \<^verbatim>\<open>Path\<close> and \<^verbatim>\<open>Description\<close> strings or null when present.
\<close>

definition string_or_null_if_present :: "(string \<times> json) list \<Rightarrow> string \<Rightarrow> bool" where
  "string_or_null_if_present d key = (case map_of d key of
      None \<Rightarrow> True
    | Some v \<Rightarrow> v = JNull \<or> is_str v)"

definition list_of_allowed :: "string list \<Rightarrow> json option \<Rightarrow> bool" where
  "list_of_allowed allowed v = (case v of
      Some (JList items) \<Rightarrow> list_all (\<lambda>x. x \<in> set (map JStr allowed)) items
    | _ \<Rightarrow> False)"

definition image_entry_ok :: "json \<Rightarrow> bool" where
  "image_entry_ok entry = (case entry of
      JObj e \<Rightarrow> string_or_null_if_present e ''Path'' \<and> string_or_null_if_present e ''Description''
    | _ \<Rightarrow> False)"

definition images_ok :: "json option \<Rightarrow> bool" where
  "images_ok v = (case v of
      None \<Rightarrow> True
    | Some (JList entries) \<Rightarrow> list_all image_entry_ok entries
    | _ \<Rightarrow> False)"

definition schema_but_version :: "(string \<times> json) list \<Rightarrow> bool" where
  "schema_but_version d =
     (list_all (\<lambda>key. map_of d key \<noteq> None) REQUIRED_KEYS \<and>
      list_all (string_or_null_if_present d)
        [''Name'', ''Description'', ''Company'', ''SiteURL'', ''MinNsightSystemsVersion'',
         ''SetupNotes''] \<and>
      list_of_allowed VALID_ARCHITECTURES (map_of d ''Architectures'') \<and>
      list_of_allowed VALID_OPERATING_SYSTEMS (map_of d ''OperatingSystems'') \<and>
      images_ok (map_of d ''Images''))"

definition satisfies_schema :: "json \<Rightarrow> bool" where
  "satisfies_schema data = (case data of
      JObj d \<Rightarrow> map_of d ''SchemaVersion'' = Some (JInt 1) \<and> schema_but_version d
    | _ \<Rightarrow> False)"

text \<open>
  What the validator accepts: the same, but for \<^verbatim>\<open>SchemaVersion\<close>, where it takes
  the boolean \<^verbatim>\<open>true\<close> as well.
\<close>

definition accepted_by_validator :: "json \<Rightarrow> bool" where
  "accepted_by_validator data = (case data of
      JObj d \<Rightarrow>
        (map_of d ''SchemaVersion'' = Some (JInt 1) \<or> map_of d ''SchemaVersion'' = Some (JBool True)) \<and>
        schema_but_version d
    | _ \<Rightarrow> False)"

text \<open>
  A valid entry of the directory: the file parses as JSON and the validator returns
  the empty list for the value.
\<close>

definition valid_entry :: "env \<Rightarrow> path \<Rightarrow> json option" where
  "valid_entry w p = (case load w p of
      Loads v \<Rightarrow> if validate_plugin_json v = Inr [] then Some v else None
    | Raises e msg \<Rightarrow> None)"

definition valid_entries :: "env \<Rightarrow> path list \<Rightarrow> json list" where
  "valid_entries w paths = List.map_filter (valid_entry w) paths"

text \<open>A text occurs in another: the second is the first with some text before and after.\<close>

definition occurs_in :: "string \<Rightarrow> string \<Rightarrow> bool" where
  "occurs_in s t = (\<exists>before rest. t = before @ s @ rest)"

text \<open>
  A plugin is listed on a page by its rows: the row of the table of contents is the
  link to the anchor \<^verbatim>\<open>plugin-i\<close> with the escaped name and occurs in the page; the
  card occurs in the page and holds the \<^verbatim>\<open>article\<close> tag with that anchor, the
  escaped name as its heading, the escaped description and the escaped company.
\<close>

definition entry_listed :: "nat \<Rightarrow> json \<Rightarrow> html \<times> html \<Rightarrow> string \<Rightarrow> bool" where
  \<open>entry_listed i plugin row page = (case plugin of
      JObj p \<Rightarrow>
        fst row =
          ''        <li><a href="#plugin-'' @ decimal i @ ''">'' @
          escape (str_of (dict_get p ''Name'' (JStr ''Unnamed''))) @ ''</a></li>'' \<and>
        occurs_in (fst row) page \<and>
        occurs_in (snd row) page \<and>
        occurs_in (''<article class="plugin-card" id="plugin-'' @ decimal i @ ''">'') (snd row) \<and>
        occurs_in
          (''<h2>'' @ escape (str_of (dict_get p ''Name'' (JStr ''Unnamed''))) @ ''</h2>'')
          (snd row) \<and>
        occurs_in
          (''<p class="plugin-desc">'' @ escape (str_of (dict_get p ''Description'' (JStr []))) @
           ''</p>'')
          (snd row) \<and>
        occurs_in
          (''<dt>Company</dt><dd>'' @ escape (str_of (dict_get p ''Company'' (JStr ''Unnamed''))) @
           ''</dd>'')
          (snd row)
    | _ \<Rightarrow> False)\<close>

text \<open>
  A file that the loop can handle: loading it raises nothing but OSError or
  JSONDecodeError, and the validator returns on the value loaded.
\<close>

definition loads_cleanly :: "env \<Rightarrow> path \<Rightarrow> bool" where
  "loads_cleanly w p = (case load w p of
      Loads v \<Rightarrow> (case validate_plugin_json v of Inl e \<Rightarrow> False | Inr errors \<Rightarrow> True)
    | Raises e msg \<Rightarrow> e = OSError \<or> e = JSONDecodeError)"

text \<open>The events that touch the file system.\<close>

fun is_fs_event :: "event \<Rightarrow> bool" where
  "is_fs_event (Print s m) = False"
| "is_fs_event (MkdirParents p) = True"
| "is_fs_event (WriteText p t) = True"

text \<open>The keys whose values \<^verbatim>\<open>build_html\<close> passes to \<^verbatim>\<open>escape\<close> as they are.\<close>

definition ESCAPED_KEYS :: "string list" where
  "ESCAPED_KEYS = [''Name'', ''Description'', ''Company'', ''SiteURL'', ''SetupNotes'']"

text \<open>
  A plugin has no image to show: \<^verbatim>\<open>Images\<close> is absent or empty, or the
  \<^verbatim>\<open>Path\<close> of its first entry is missing or empty.
\<close>

definition no_image :: "(string \<times> json) list \<Rightarrow> bool" where
  "no_image p = (case map_of p ''Images'' of
      None \<Rightarrow> True
    | Some (JList []) \<Rightarrow> True
    | Some (JList (JObj e # rest)) \<Rightarrow> map_of e ''Path'' = None \<or> map_of e ''Path'' = Some (JStr [])
    | _ \<Rightarrow> False)"

text \<open>Example plugins.\<close>

definition plugin_fields :: "(string \<times> json) list" where
  "plugin_fields =
     [(''Name'', JStr ''Tracer <1>''), (''Description'', JStr ''Traces & more''),
      (''Company'', JStr ''ACME''), (''SiteURL'', JStr ''https://example.com''),
      (''Architectures'', JList [JStr ''x64'']),
      (''OperatingSystems'', JList [JStr ''Linux'', JStr ''Windows''])]"

definition plugin_ok :: json where
  "plugin_ok = JObj ((''SchemaVersion'', JInt 1) # plugin_fields)"

definition plugin_true_version :: json where
  "plugin_true_version = JObj ((''SchemaVersion'', JBool True) # plugin_fields)"

definition plugin_null_name :: json where
  "plugin_null_name = JObj ((''SchemaVersion'', JInt 1) # (''Name'', JNull) # plugin_fields)"

definition plugin_unhashable :: json where
  "plugin_unhashable = JObj [(''Architectures'', JList [JList []])]"

definition image_one :: json where
  "image_one = JObj [(''Path'', JStr ''a.png''), (''Description'', JStr ''first'')]"

definition image_two :: json where
  "image_two = JObj [(''Path'', JStr ''b.png'')]"

text \<open>
  An example environment: one directory \<^verbatim>\<open>/plugins\<close> with the given files (name and
  what loading the file gives), paths already resolved, every write succeeding.
\<close>

definition example_env :: "(string \<times> load_outcome) list \<Rightarrow> env" where
  "example_env files =
     \<lparr>resolve = (\<lambda>p. p),
      is_dir = (\<lambda>p. p = [''plugins'']),
      listdir = (\<lambda>p. if p = [''plugins''] then map fst files else []),
      load = (\<lambda>p. if butlast p = [''plugins''] then
                     (case map_of files (last p) of
                        Some r \<Rightarrow> r
                      | None \<Rightarrow> Raises OSError ''No such file or directory'')
                   else Raises OSError ''No such file or directory''),
      mkdir_fails = (\<lambda>p. False),
      write_fails = (\<lambda>p. False),
      py_repr = (\<lambda>v. [])\<rparr>"

definition env_one :: env where
  "env_one = example_env
     [(''b.json'', Raises JSONDecodeError ''Expecting value''),
      (''a.json'', Loads plugin_ok),
      (''notes.txt'', Loads plugin_ok)]"

definition env_unhashable :: env where
  "env_unhashable = example_env
     [(''a.json'', Loads plugin_unhashable),
      (''b.json'', Loads plugin_ok)]"

definition env_without :: env where
  "env_without = example_env [(''b.json'', Loads plugin_ok)]"

definition args_one :: args where
  "args_one = \<lparr>input_dir = Some [''plugins''], output_file = Some [''site'', ''index.html'']\<rparr>"

definition args_no_output :: args where
  "args_no_output = \<lparr>input_dir = Some [''plugins''], output_file = None\<rparr>"

definition fields_two_images :: "(string \<times> json) list" where
  "fields_two_images =
     (''Images'', JList [image_one, image_two]) # (''SchemaVersion'', JInt 1) # plugin_fields"

definition fields_one_image :: "(string \<times> json) list" where
  "fields_one_image = (''Images'', JList [image_one]) # (''SchemaVersion'', JInt 1) # plugin_fields"

text \<open>The directory of \<open>env_one\<close> enumerated in another order.\<close>

definition listdir_other_order :: "path \<Rightarrow> string list" where
  "listdir_other_order p = (if p = [''plugins''] then [''notes.txt'', ''a.json'', ''b.json''] else [])"

text \<open>The files of \<open>env_one\<close> with another text in \<^verbatim>\<open>notes.txt\<close>.\<close>

definition load_other_notes :: "path \<Rightarrow> load_outcome" where
  "load_other_notes p =
     (if p = [''plugins'', ''notes.txt''] then Loads plugin_null_name else load env_one p)"

section \<open>Exceptions\<close>

lemma bind_exc_Inr_iff: "bind_exc m f = Inr y \<longleftrightarrow> (\<exists>x. m = Inr x \<and> f x = Inr y)"
  by (cases m) (simp_all add: bind_exc_def)

section \<open>Properties of \<^verbatim>\<open>escape\<close>\<close>

lemma replace_Nil: "replace old new [] = []"
  by (simp add: replace_def)

lemma replace_Cons: "replace old new (c # s) = (if c = old then new else [c]) @ replace old new s"
  by (simp add: replace_def)

lemma replace_append: "replace old new (s @ t) = replace old new s @ replace old new t"
  by (simp add: replace_def)

lemma escape_Nil: "escape [] = []"
  by (simp add: escape_def replace_Nil)

text \<open>
  The four replacements one after the other do the work of one pass that writes an
  entity per character: the later replacements leave the entities of the earlier ones
  alone, since \<^verbatim>\<open>&\<close> is replaced first.
\<close>

lemma escape_Cons: "escape (c # s) = html_entity c @ escape s"
  by (simp add: escape_def html_entity_def replace_Cons replace_append replace_Nil)

lemma escape_concat: "escape s = concat (map html_entity s)"
  by (induction s) (simp_all add: escape_Nil escape_Cons)

lemma html_entity_chars:
  "CHR ''<'' \<notin> set (html_entity c) \<and> CHR ''>'' \<notin> set (html_entity c) \<and>
   CHR 0x22 \<notin> set (html_entity c)"
  by (simp add: html_entity_def)

lemma escape_chars:
  "CHR ''<'' \<notin> set (escape s) \<and> CHR ''>'' \<notin> set (escape s) \<and> CHR 0x22 \<notin> set (escape s)"
  by (induction s) (simp_all add: escape_Nil escape_Cons html_entity_chars)

lemma html_entity_amp:
  assumes "i < length (html_entity c)" and "html_entity c ! i = CHR ''&''"
  shows "i = 0 \<and> starts_entity (html_entity c @ t)"
  using assms
  by (auto simp add: html_entity_def starts_entity_def nth_Cons less_Suc_eq numeral_eq_Suc
      split: if_splits nat.splits)

lemma starts_entity_escape:
  "i < length (escape s) \<Longrightarrow> escape s ! i = CHR ''&'' \<Longrightarrow> starts_entity (drop i (escape s))"
proof (induction s arbitrary: i)
  case Nil
  then show ?case by (simp add: escape_Nil)
next
  case (Cons c s)
  show ?case
  proof (cases "i < length (html_entity c)")
    case True
    with Cons.prems have "html_entity c ! i = CHR ''&''"
      by (simp add: escape_Cons nth_append)
    with True have "i = 0 \<and> starts_entity (html_entity c @ escape s)"
      by (rule html_entity_amp)
    then show ?thesis by (simp add: escape_Cons)
  next
    case False
    with Cons.prems have "i - length (html_entity c) < length (escape s)"
      and "escape s ! (i - length (html_entity c)) = CHR ''&''"
      by (simp_all add: escape_Cons nth_append)
    then have "starts_entity (drop (i - length (html_entity c)) (escape s))"
      by (rule Cons.IH)
    with False show ?thesis by (simp add: escape_Cons)
  qed
qed

text \<open>
  C8. For every string \<open>s\<close>, \<^verbatim>\<open>escape(s)\<close> holds none of the characters \<^verbatim>\<open><\<close>,
  \<^verbatim>\<open>>\<close> and the double quote, and wherever it holds \<^verbatim>\<open>&\<close> one of the entities
  \<^verbatim>\<open>&amp;\<close>, \<^verbatim>\<open>&lt;\<close>, \<^verbatim>\<open>&gt;\<close>, \<^verbatim>\<open>&quot;\<close> starts there; the result is the
  input with each character replaced by its entity, so every \<^verbatim>\<open>&\<close> of the result is
  one that \<^verbatim>\<open>escape\<close> wrote.
\<close>

theorem escape_entity_encoded:
  "CHR ''<'' \<notin> set (escape s) \<and> CHR ''>'' \<notin> set (escape s) \<and> CHR 0x22 \<notin> set (escape s) \<and>
   (\<forall>i. i < length (escape s) \<and> escape s ! i = CHR ''&'' \<longrightarrow> starts_entity (drop i (escape s))) \<and>
   escape s = concat (map html_entity s)"
proof -
  have "\<forall>i. i < length (escape s) \<and> escape s ! i = CHR ''&'' \<longrightarrow> starts_entity (drop i (escape s))"
    using starts_entity_escape by blast
  moreover have "escape s = concat (map html_entity s)"
    by (rule escape_concat)
  ultimately show ?thesis
    using escape_chars [of s] by blast
qed

theorem escape_entity_encoded_witness:
  "escape ''a&<b'' = ''a&amp;&lt;b'' \<and> starts_entity (drop 1 (escape ''a&<b'')) \<and>
   CHR ''<'' \<notin> set (escape ''a&<b'')"
proof -
  have e: "escape ''a&<b'' = ''a&amp;&lt;b''"
    by (simp add: escape_Cons escape_Nil html_entity_def)
  have "1 < length (escape ''a&<b'') \<and> escape ''a&<b'' ! 1 = CHR ''&''"
    by (simp add: e)
  with escape_entity_encoded [of "''a&<b''"] e show ?thesis
    by blast
qed

section \<open>Properties of the validator\<close>

lemma validate_JNull: "validate_plugin_json JNull = Inr [RootMustBeObject]"
  by (simp add: validate_plugin_json_def)

lemma missing_key_errors_Nil:
  "missing_key_errors d = [] \<longleftrightarrow> list_all (\<lambda>key. map_of d key \<noteq> None) REQUIRED_KEYS"
  by (simp add: missing_key_errors_def filter_empty_conv list_all_iff)

lemma schema_version_errors_Nil:
  "schema_version_errors d = [] \<longleftrightarrow>
     map_of d ''SchemaVersion'' = None \<or> map_of d ''SchemaVersion'' = Some (JInt 1) \<or>
     map_of d ''SchemaVersion'' = Some (JBool True)"
proof (cases "map_of d ''SchemaVersion''")
  case None
  then show ?thesis by (simp add: schema_version_errors_def)
next
  case (Some v)
  then show ?thesis by (cases v) (simp_all add: schema_version_errors_def)
qed

lemma string_field_errors_Nil:
  "string_field_errors d keys = [] \<longleftrightarrow> list_all (string_or_null_if_present d) keys"
  by (auto simp add: string_field_errors_def filter_empty_conv list_all_iff
      not_string_or_none_def string_or_null_if_present_def split: option.splits)

lemma allowed_items:
  "list_all (\<lambda>x. x \<in> set (map JStr allowed)) items \<Longrightarrow>
     list_all hashable items \<and>
     filter (\<lambda>(i, item). \<not> is_str item) (enumerate n items) = []"
  by (induction items arbitrary: n) auto

lemma architectures_errors_Nil:
  "enum_list_errors d ''Architectures'' = Inr [] \<longleftrightarrow>
     map_of d ''Architectures'' = None \<or>
     list_of_allowed VALID_ARCHITECTURES (map_of d ''Architectures'')"
proof (cases "map_of d ''Architectures''")
  case None
  then show ?thesis by (simp add: enum_list_errors_def)
next
  case (Some val)
  show ?thesis
  proof (cases val)
    case (JList items)
    show ?thesis
    proof (cases "list_all (\<lambda>x. x \<in> set (map JStr VALID_ARCHITECTURES)) items")
      case True
      with allowed_items [OF True, of 0] Some JList show ?thesis
        by (simp add: enum_list_errors_def list_of_allowed_def Let_def filter_empty_conv
            list_all_iff)
    next
      case False
      with Some JList show ?thesis
        by (auto simp add: enum_list_errors_def list_of_allowed_def Let_def filter_empty_conv
            list_all_iff)
    qed
  qed (insert Some, simp_all add: enum_list_errors_def list_of_allowed_def)
qed

lemma operating_systems_errors_Nil:
  "enum_list_errors d ''OperatingSystems'' = Inr [] \<longleftrightarrow>
     map_of d ''OperatingSystems'' = None \<or>
     list_of_allowed VALID_OPERATING_SYSTEMS (map_of d ''OperatingSystems'')"
proof (cases "map_of d ''OperatingSystems''")
  case None
  then show ?thesis by (simp add: enum_list_errors_def)
next
  case (Some val)
  show ?thesis
  proof (cases val)
    case (JList items)
    show ?thesis
    proof (cases "list_all (\<lambda>x. x \<in> set (map JStr VALID_OPERATING_SYSTEMS)) items")
      case True
      with allowed_items [OF True, of 0] Some JList show ?thesis
        by (simp add: enum_list_errors_def list_of_allowed_def Let_def filter_empty_conv
            list_all_iff)
    next
      case False
      with Some JList show ?thesis
        by (auto simp add: enum_list_errors_def list_of_allowed_def Let_def filter_empty_conv
            list_all_iff)
    qed
  qed (insert Some, simp_all add: enum_list_errors_def list_of_allowed_def)
qed

lemma image_entry_errors_Nil: "image_entry_errors (i, entry) = [] \<longleftrightarrow> image_entry_ok entry"
  by (cases entry)
    (auto simp add: image_entry_errors_def image_entry_ok_def not_string_or_none_def
      string_or_null_if_present_def split: option.splits)

lemma image_entries_errors_Nil:
  "(\<forall>ie \<in> set (enumerate n entries). image_entry_errors ie = []) \<longleftrightarrow>
     list_all image_entry_ok entries"
  by (induction entries arbitrary: n) (simp_all add: image_entry_errors_Nil)

lemma images_errors_Nil: "images_errors d = [] \<longleftrightarrow> images_ok (map_of d ''Images'')"
proof (cases "map_of d ''Images''")
  case None
  then show ?thesis by (simp add: images_errors_def images_ok_def)
next
  case (Some img)
  then show ?thesis
    by (cases img) (simp_all add: images_errors_def images_ok_def image_entries_errors_Nil)
qed

lemma required_keys_present:
  "list_all (\<lambda>key. map_of d key \<noteq> None) REQUIRED_KEYS \<Longrightarrow>
     map_of d ''SchemaVersion'' \<noteq> None \<and> map_of d ''Architectures'' \<noteq> None \<and>
     map_of d ''OperatingSystems'' \<noteq> None"
  by (simp add: REQUIRED_KEYS_def)

lemma list_of_allowed_None: "\<not> list_of_allowed allowed None"
  by (simp add: list_of_allowed_def)

lemma validate_object_Nil:
  "validate_plugin_json (JObj d) = Inr [] \<longleftrightarrow>
     enum_list_errors d ''Architectures'' = Inr [] \<and>
     enum_list_errors d ''OperatingSystems'' = Inr [] \<and>
     missing_key_errors d = [] \<and> schema_version_errors d = [] \<and>
     string_field_errors d [''Name'', ''Description'', ''Company'', ''SiteURL''] = [] \<and>
     images_errors d = [] \<and>
     string_field_errors d [''MinNsightSystemsVersion'', ''SetupNotes''] = []"
  by (auto simp add: validate_plugin_json_def bind_exc_Inr_iff)

lemma string_fields_split:
  "list_all (string_or_null_if_present d)
     [''Name'', ''Description'', ''Company'', ''SiteURL'', ''MinNsightSystemsVersion'', ''SetupNotes'']
   \<longleftrightarrow>
     list_all (string_or_null_if_present d) [''Name'', ''Description'', ''Company'', ''SiteURL''] \<and>
     list_all (string_or_null_if_present d) [''MinNsightSystemsVersion'', ''SetupNotes'']"
  by auto

text \<open>
  What the validator accepts: it returns the empty list exactly for the data that
  satisfy the schema with \<^verbatim>\<open>SchemaVersion\<close> the integer 1 or the boolean
  \<^verbatim>\<open>true\<close>.
\<close>

theorem validate_returns_empty_iff:
  "validate_plugin_json data = Inr [] \<longleftrightarrow> accepted_by_validator data"
proof (cases data)
  case (JObj d)
  have "validate_plugin_json (JObj d) = Inr [] \<longleftrightarrow> accepted_by_validator (JObj d)"
    unfolding validate_object_Nil missing_key_errors_Nil schema_version_errors_Nil
      string_field_errors_Nil architectures_errors_Nil operating_systems_errors_Nil
      images_errors_Nil accepted_by_validator_def schema_but_version_def string_fields_split
      json.case
    using required_keys_present [of d] list_of_allowed_None
    by blast
  with JObj show ?thesis by simp
qed (simp_all add: validate_plugin_json_def accepted_by_validator_def)


text \<open>
  C3. The validator returns the empty list exactly for the data that satisfy the
  schema. The code does not do this: a plugin whose \<^verbatim>\<open>SchemaVersion\<close> is the boolean
  \<^verbatim>\<open>true\<close> is accepted (\<^verbatim>\<open>isinstance(True, int)\<close> holds and \<^verbatim>\<open>True != 1\<close> does not),
  although the message of that check says the value must be the integer 1.
\<close>

theorem validate_accepts_true_as_schema_version:
  "validate_plugin_json plugin_true_version = Inr [] \<and> \<not> satisfies_schema plugin_true_version"
  by code_simp

section \<open>Properties of \<^verbatim>\<open>collect_plugins\<close>\<close>

lemma after_fst: "fst (after evs r) = fst r"
  by (simp add: after_def)

lemma after_snd: "snd (after evs r) = evs @ snd r"
  by (simp add: after_def)

lemma valid_entries_Nil: "valid_entries w [] = []"
  by (simp add: valid_entries_def map_filter_simps)

lemma valid_entries_Cons:
  "valid_entries w (p # ps) =
     (case valid_entry w p of None \<Rightarrow> valid_entries w ps | Some v \<Rightarrow> v # valid_entries w ps)"
  by (simp add: valid_entries_def map_filter_simps split: option.splits)

lemma valid_entry_Some:
  "valid_entry w p = Some v \<longleftrightarrow> load w p = Loads v \<and> validate_plugin_json v = Inr []"
  by (auto simp add: valid_entry_def split: load_outcome.splits)

lemma set_valid_entries:
  "v \<in> set (valid_entries w paths) \<longleftrightarrow>
     (\<exists>p \<in> set paths. load w p = Loads v \<and> validate_plugin_json v = Inr [])"
proof (induction paths)
  case Nil
  then show ?case by (simp add: valid_entries_Nil)
next
  case (Cons p ps)
  then show ?case
    by (cases "valid_entry w p")
      (auto simp add: valid_entries_Cons valid_entry_def split: load_outcome.splits if_splits)
qed

text \<open>
  When the loop ends without an exception, the list it returns is the list of the
  valid entries, in the order of the paths.
\<close>

lemma collect_loop_plugins:
  "fst (collect_loop w paths acc) = Inr plugins \<Longrightarrow> plugins = acc @ valid_entries w paths"
proof (induction paths arbitrary: acc)
  case Nil
  then show ?case by (simp add: valid_entries_Nil)
next
  case (Cons p ps)
  have IH: "\<And>acc'. fst (collect_loop w ps acc') = Inr plugins \<Longrightarrow> plugins = acc' @ valid_entries w ps"
    by (rule Cons.IH)
  show ?case
    using Cons.prems
    by (auto simp add: valid_entries_Cons valid_entry_def load_plugin_json_def after_fst
        validate_JNull dest!: IH split: load_outcome.splits sum.splits if_splits)
qed

lemma collect_plugins_valid_entries:
  "fst (collect_plugins w dir) = Inr plugins \<Longrightarrow>
     plugins = valid_entries w (sort (glob_json w dir))"
  using collect_loop_plugins [of w "sort (glob_json w dir)" "[]" plugins]
  by (simp add: collect_plugins_def)

lemma collect_loop_prints: "filter is_fs_event (snd (collect_loop w paths acc)) = []"
proof (induction paths arbitrary: acc)
  case Nil
  then show ?case by simp
next
  case (Cons p ps)
  then show ?case
    by (auto simp add: load_plugin_json_def after_snd filter_empty_conv
        split: load_outcome.splits sum.splits if_splits)
qed

lemma collect_plugins_prints: "filter is_fs_event (snd (collect_plugins w dir)) = []"
  by (simp add: collect_plugins_def collect_loop_prints)

text \<open>
  What the loop does when no exception escapes: if every file loads cleanly, the loop
  returns the valid entries, which are those it would return with the other files
  absent, and it prints a message with the path of every file it skips.
\<close>

lemma collect_loop_returns:
  "list_all (loads_cleanly w) paths \<Longrightarrow>
     fst (collect_loop w paths acc) = Inr (acc @ valid_entries w paths)"
proof (induction paths arbitrary: acc)
  case Nil
  then show ?case by (simp add: valid_entries_Nil)
next
  case (Cons p ps)
  then show ?case
    by (auto simp add: loads_cleanly_def valid_entries_Cons valid_entry_def load_plugin_json_def
        after_fst validate_JNull split: load_outcome.splits sum.splits)
qed

lemma collect_loop_logs_skipped:
  "list_all (loads_cleanly w) paths \<Longrightarrow> p \<in> set paths \<Longrightarrow> valid_entry w p = None \<Longrightarrow>
     Print Stderr (FailedToLoad p) \<in> set (snd (collect_loop w paths acc)) \<or>
     Print Stderr (InvalidFormat p) \<in> set (snd (collect_loop w paths acc))"
proof (induction paths arbitrary: acc)
  case Nil
  then show ?case by simp
next
  case (Cons q qs)
  then show ?case
    by (auto simp add: loads_cleanly_def valid_entry_def load_plugin_json_def
        after_snd validate_JNull split: load_outcome.splits sum.splits if_splits)
qed

lemma valid_entries_without_invalid:
  "valid_entries w (filter (\<lambda>p. valid_entry w p \<noteq> None) paths) = valid_entries w paths"
  by (induction paths) (auto simp add: valid_entries_Nil valid_entries_Cons)


lemma collect_plugins_returns:
  assumes "list_all (loads_cleanly w) (glob_json w dir)"
  shows "fst (collect_plugins w dir) = Inr (valid_entries w (sort (glob_json w dir)))"
proof -
  from assms have "list_all (loads_cleanly w) (sort (glob_json w dir))"
    by (simp add: list_all_iff)
  then show ?thesis
    using collect_loop_returns [of w "sort (glob_json w dir)" "[]"]
    by (simp add: collect_plugins_def)
qed

text \<open>
  C4. Files that do not parse or do not pass the validator are logged and skipped, and
  the loop goes on with the other files. The code does not do this for every such
  file: an \<^verbatim>\<open>Architectures\<close> array that holds an array makes \<^verbatim>\<open>set(val)\<close> raise
  TypeError inside the validator, which nothing catches, so the loop ends with no
  message and the valid file after it is never read. Without that file the valid
  file is collected.
\<close>

theorem collect_plugins_raises_on_unhashable_item:
  "validate_plugin_json plugin_unhashable = Inl TypeError \<and>
   collect_plugins env_unhashable [''plugins''] = (Inl TypeError, []) \<and>
   collect_plugins env_without [''plugins''] = (Inr [plugin_ok], [])"
  by code_simp

section \<open>Properties of \<^verbatim>\<open>main\<close>\<close>

lemma build_rows_length: "build_rows repr i ps = Inr rows \<Longrightarrow> length rows = length ps"
proof (induction ps arbitrary: i rows)
  case Nil
  then show ?case by simp
next
  case (Cons p ps)
  then show ?case
    by (auto simp add: bind_exc_def split: sum.splits)
qed

text \<open>What a run that returns 0 has done.\<close>

lemma main_success:
  assumes "fst (main w a) = Inr 0"
  shows "\<exists>d out plugins evs html.
           input_dir a = Some d \<and> output_file a = Some out \<and> is_dir w (resolve w d) \<and>
           collect_plugins w (resolve w d) = (Inr plugins, evs) \<and> plugins \<noteq> [] \<and>
           render_html (py_repr w) plugins = Inr html \<and>
           snd (main w a) =
             evs @ [MkdirParents (butlast (resolve w out)), WriteText (resolve w out) html,
                    Print Stdout (Wrote (resolve w out) (length plugins))]"
  using assms
  by (auto simp add: main_def build_html_def split: option.splits if_splits prod.splits sum.splits)

text \<open>The conditions under which a run returns 0.\<close>

lemma main_returns_0:
  assumes "input_dir a = Some d" and "output_file a = Some out" and "is_dir w (resolve w d)"
    and "collect_plugins w (resolve w d) = (Inr plugins, evs)" and "plugins \<noteq> []"
    and "build_rows (py_repr w) 0 plugins = Inr rows"
    and "\<not> mkdir_fails w (butlast (resolve w out))" and "\<not> write_fails w (resolve w out)"
  shows "fst (main w a) = Inr 0"
  using assms
  by (simp add: main_def build_html_def render_html_def bind_exc_def)

lemma collect_env_one:
  "collect_plugins env_one [''plugins''] =
     (Inr [plugin_ok],
      [Print Stderr (FailedToParse [''plugins'', ''b.json''] ''Expecting value''),
       Print Stderr (FailedToLoad [''plugins'', ''b.json''])])"
  by code_simp

lemma build_rows_plugin_ok: "\<exists>rows. build_rows (py_repr env_one) 0 [plugin_ok] = Inr rows"
proof -
  have "case build_rows (py_repr env_one) 0 [plugin_ok] of Inl e \<Rightarrow> False | Inr rows \<Rightarrow> True"
    by code_simp
  then show ?thesis
    by (simp split: sum.splits)
qed

lemma env_one_fields:
  "resolve env_one p = p" "is_dir env_one [''plugins'']" "\<not> mkdir_fails env_one p"
  "\<not> write_fails env_one p"
  by (simp_all add: env_one_def example_env_def)

lemma main_env_one: "fst (main env_one args_one) = Inr 0"
proof -
  obtain rows where "build_rows (py_repr env_one) 0 [plugin_ok] = Inr rows"
    using build_rows_plugin_ok by blast
  then show ?thesis
    using collect_env_one
    by (intro main_returns_0 [where d = "[''plugins'']" and out = "[''site'', ''index.html'']"
          and plugins = "[plugin_ok]" and rows = rows])
      (simp_all add: env_one_fields args_one_def)
qed

text \<open>
  C1. The run fails only if the input directory is missing or no valid plugin file is
  found. As stated this does not hold: with an input directory that exists and holds
  a valid plugin file, \<^verbatim>\<open>main\<close> returns 1 when \<^verbatim>\<open>--output-file\<close> is not given
  (the check of lines 249-253).
\<close>

theorem main_returns_1_without_output_file:
  "is_dir env_one (resolve env_one [''plugins'']) \<and>
   fst (collect_plugins env_one (resolve env_one [''plugins''])) = Inr [plugin_ok] \<and>
   input_dir args_no_output = Some [''plugins''] \<and>
   fst (main env_one args_no_output) = Inr 1"
  by code_simp

text \<open>
  C1, amended. When \<^verbatim>\<open>main\<close> returns, its exit status is 0 or 1, and it is 1
  exactly when the input directory is missing, \<^verbatim>\<open>--output-file\<close> is not given, or
  no valid plugin file is found; every other run that returns, returns 0. (Runs that
  an exception leaves are not covered.)
\<close>

theorem main_exit_status:
  assumes "fst (main w a) = Inr rc"
  shows "\<exists>d. input_dir a = Some d \<and> (rc = 0 \<or> rc = 1) \<and>
           (rc \<noteq> 0 \<longleftrightarrow>
              \<not> is_dir w (resolve w d) \<or> output_file a = None \<or>
              fst (collect_plugins w (resolve w d)) = Inr [])"
  using assms
  by (auto simp add: main_def build_html_def split: option.splits if_splits prod.splits sum.splits)

theorem main_exit_status_witness:
  "fst (main env_one args_one) = Inr 0 \<and>
   is_dir env_one (resolve env_one [''plugins'']) \<and> output_file args_one \<noteq> None \<and>
   fst (collect_plugins env_one (resolve env_one [''plugins''])) \<noteq> Inr []"
proof -
  have "input_dir args_one = Some [''plugins'']"
    by (simp add: args_one_def)
  with main_exit_status [OF main_env_one] main_env_one show ?thesis
    by auto
qed

subsection \<open>The rows of a plugin in the text of the page\<close>

lemma occurs_in_here: "occurs_in s (s @ rest)"
  unfolding occurs_in_def by (rule exI [of _ "[]"], rule exI [of _ rest]) simp

lemma occurs_in_skip: "occurs_in s t \<Longrightarrow> occurs_in s (u @ t)"
proof -
  assume "occurs_in s t"
  then obtain before rest where "t = before @ s @ rest"
    unfolding occurs_in_def by blast
  then have "u @ t = (u @ before) @ s @ rest"
    by simp
  then show ?thesis
    unfolding occurs_in_def by blast
qed

lemma occurs_in_trans: "occurs_in s t \<Longrightarrow> occurs_in t u \<Longrightarrow> occurs_in s u"
proof -
  assume "occurs_in s t" and "occurs_in t u"
  then obtain b1 r1 b2 r2 where "t = b1 @ s @ r1" and "u = b2 @ t @ r2"
    unfolding occurs_in_def by blast
  then have "u = (b2 @ b1) @ s @ (r1 @ r2)"
    by simp
  then show ?thesis
    unfolding occurs_in_def by blast
qed

lemma occurs_in_join: "x \<in> set xs \<Longrightarrow> occurs_in x (join sep xs)"
proof (induction sep xs rule: join.induct)
  case (1 sep)
  then show ?case by simp
next
  case (2 sep y)
  then show ?case using occurs_in_here [of y "[]"] by simp
next
  case (3 sep y z zs)
  show ?case
  proof (cases "x = y")
    case True
    then show ?thesis by (simp add: occurs_in_here)
  next
    case False
    with 3 have "occurs_in x (join sep (z # zs))"
      by simp
    then have "occurs_in x (y @ sep @ join sep (z # zs))"
      by (intro occurs_in_skip)
    then show ?thesis by simp
  qed
qed

lemma occurs_in_html_page: "occurs_in toc (html_page toc body)" "occurs_in body (html_page toc body)"
  unfolding html_page_def
  by (intro occurs_in_skip occurs_in_here)+

lemma plugin_card_parts:
  \<open>plugin_card anchor_id name desc img_html archs oses min_ver setup_notes site_link company =
     (''\<newline>'' @
      ''        '') @
     (''<article class="plugin-card" id="'' @ anchor_id @ ''">'') @
     (''\<newline>'' @
      ''            <div class="plugin-header">\<newline>'' @
      ''                '') @
     (''<h2>'' @ name @ ''</h2>'') @
     (''\<newline>'' @
      ''            </div>\<newline>'' @
      ''            '') @
     (''<p class="plugin-desc">'' @ desc @ ''</p>'') @
     (''\<newline>'' @
      ''            '' @
      (if img_html \<noteq> [] then ''<div class="plugin-thumb">'' @ img_html @ ''</div>'' else []) @
      ''\<newline>'' @
      ''            <dl class="plugin-meta">\<newline>'' @
      ''                <dt>Architectures</dt><dd>'' @
      (if escape archs \<noteq> [] then escape archs else ''-'') @
      ''</dd>\<newline>'' @
      ''                <dt>Operating systems</dt><dd>'' @
      (if escape oses \<noteq> [] then escape oses else ''-'') @
      ''</dd>\<newline>'' @
      ''                '' @
      (if min_ver \<noteq> [] then ''<dt>Minimal Nsight Systems version</dt><dd>'' @ min_ver @ ''</dd>'' else []) @
      ''\<newline>'' @
      ''                '' @
      (if setup_notes \<noteq> [] then ''<dt>Setup Notes</dt><dd>'' @ setup_notes @ ''</dd>'' else []) @
      ''\<newline>'' @
      ''                <dt>Site URL</dt><dd>'' @
      (if site_link \<noteq> [] then ''<p class="plugin-link">'' @ site_link @ ''</p>'' else []) @
      ''</dd>\<newline>'' @
      ''                '') @
     (''<dt>Company</dt><dd>'' @ company @ ''</dd>'') @
     (''\<newline>'' @
      ''            </dl>\<newline>'' @
      ''        </article>'')\<close>
  by (simp only: plugin_card_def append_assoc append_Cons append_Nil)

lemma plugin_card_article:
  \<open>occurs_in (''<article class="plugin-card" id="'' @ anchor_id @ ''">'')
     (plugin_card anchor_id name desc img_html archs oses min_ver setup_notes site_link company)\<close>
  unfolding plugin_card_parts
  by (rule occurs_in_skip, rule occurs_in_here)

lemma plugin_card_name:
  \<open>occurs_in (''<h2>'' @ name @ ''</h2>'')
     (plugin_card anchor_id name desc img_html archs oses min_ver setup_notes site_link company)\<close>
  unfolding plugin_card_parts
  by (rule occurs_in_skip, rule occurs_in_skip, rule occurs_in_skip, rule occurs_in_here)

lemma plugin_card_desc:
  \<open>occurs_in (''<p class="plugin-desc">'' @ desc @ ''</p>'')
     (plugin_card anchor_id name desc img_html archs oses min_ver setup_notes site_link company)\<close>
  unfolding plugin_card_parts
  by (rule occurs_in_skip, rule occurs_in_skip, rule occurs_in_skip, rule occurs_in_skip, rule occurs_in_skip, rule occurs_in_here)

lemma plugin_card_company:
  \<open>occurs_in (''<dt>Company</dt><dd>'' @ company @ ''</dd>'')
     (plugin_card anchor_id name desc img_html archs oses min_ver setup_notes site_link company)\<close>
  unfolding plugin_card_parts
  by (rule occurs_in_skip, rule occurs_in_skip, rule occurs_in_skip, rule occurs_in_skip, rule occurs_in_skip, rule occurs_in_skip, rule occurs_in_skip, rule occurs_in_here)

lemma py_escape_value: "py_escape v = Inr s \<Longrightarrow> s = escape (str_of v)"
  by (cases v) (simp_all add: py_escape_def)

lemma plugin_rows_object: "plugin_rows repr i v = Inr row \<Longrightarrow> \<exists>p. v = JObj p"
  by (cases v) (simp_all add: plugin_rows_def)

lemma plugin_rows_Inr:
  assumes "plugin_rows repr i (JObj p) = Inr row"
  shows "\<exists>img_html archs oses min_ver setup_notes site_link.
           row =
             (toc_row (''plugin-'' @ decimal i)
                (escape (str_of (dict_get p ''Name'' (JStr ''Unnamed'')))),
              plugin_card (''plugin-'' @ decimal i)
                (escape (str_of (dict_get p ''Name'' (JStr ''Unnamed''))))
                (escape (str_of (dict_get p ''Description'' (JStr []))))
                img_html archs oses min_ver setup_notes site_link
                (escape (str_of (dict_get p ''Company'' (JStr ''Unnamed'')))))"
proof -
  from assms obtain anchor_id company name desc archs oses min_ver setup_notes site_link
      img_html where
    a: "anchor_id = ''plugin-'' @ decimal i"
    and c: "py_escape (dict_get p ''Company'' (JStr ''Unnamed'')) = Inr company"
    and n: "py_escape (dict_get p ''Name'' (JStr ''Unnamed'')) = Inr name"
    and d: "py_escape (dict_get p ''Description'' (JStr [])) = Inr desc"
    and r: "row =
      (toc_row anchor_id name,
       plugin_card anchor_id name desc img_html archs oses min_ver setup_notes site_link company)"
    by (auto simp add: plugin_rows_def bind_exc_Inr_iff Let_def)
  from c have c': "company = escape (str_of (dict_get p ''Company'' (JStr ''Unnamed'')))"
    by (rule py_escape_value)
  from n have n': "name = escape (str_of (dict_get p ''Name'' (JStr ''Unnamed'')))"
    by (rule py_escape_value)
  from d have d': "desc = escape (str_of (dict_get p ''Description'' (JStr [])))"
    by (rule py_escape_value)
  from r show ?thesis
    unfolding a c' n' d' by (intro exI)
qed

lemma build_rows_nth:
  "build_rows repr i ps = Inr rows \<Longrightarrow> j < length ps \<Longrightarrow>
     plugin_rows repr (i + j) (ps ! j) = Inr (rows ! j)"
proof (induction ps arbitrary: i rows j)
  case Nil
  then show ?case by simp
next
  case (Cons q qs)
  from Cons.prems(1) obtain row rest where
    q: "plugin_rows repr i q = Inr row" and
    qs: "build_rows repr (Suc i) qs = Inr rest" and
    rows: "rows = row # rest"
    by (auto simp add: bind_exc_Inr_iff)
  show ?case
  proof (cases j)
    case 0
    with q rows show ?thesis by simp
  next
    case (Suc k)
    with Cons.prems(2) have "k < length qs"
      by simp
    with qs have "plugin_rows repr (Suc i + k) (qs ! k) = Inr (rest ! k)"
      by (rule Cons.IH)
    with Suc rows show ?thesis by simp
  qed
qed

lemma toc_row_text:
  \<open>toc_row (''plugin-'' @ decimal i) name =
     ''        <li><a href="#plugin-'' @ decimal i @ ''">'' @ name @ ''</a></li>''\<close>
  by (simp only: toc_row_def append_assoc append_Cons append_Nil)

lemma article_text:
  \<open>''<article class="plugin-card" id="'' @ (''plugin-'' @ decimal i) @ ''">'' =
     ''<article class="plugin-card" id="plugin-'' @ decimal i @ ''">''\<close>
  by (simp only: append_assoc append_Cons append_Nil)

lemma entry_listed_row:
  assumes "plugin_rows repr i plugin = Inr row"
    and "occurs_in (fst row) page" and "occurs_in (snd row) page"
  shows "entry_listed i plugin row page"
proof -
  from assms(1) obtain p where p: "plugin = JObj p"
    using plugin_rows_object by blast
  with assms(1) obtain img_html archs oses min_ver setup_notes site_link where
    row: "row =
             (toc_row (''plugin-'' @ decimal i)
                (escape (str_of (dict_get p ''Name'' (JStr ''Unnamed'')))),
              plugin_card (''plugin-'' @ decimal i)
                (escape (str_of (dict_get p ''Name'' (JStr ''Unnamed''))))
                (escape (str_of (dict_get p ''Description'' (JStr []))))
                img_html archs oses min_ver setup_notes site_link
                (escape (str_of (dict_get p ''Company'' (JStr ''Unnamed'')))))"
    using plugin_rows_Inr [of repr i p row] by blast
  have f: "fst row = toc_row (''plugin-'' @ decimal i)
                (escape (str_of (dict_get p ''Name'' (JStr ''Unnamed''))))"
    and s: "snd row = plugin_card (''plugin-'' @ decimal i)
                (escape (str_of (dict_get p ''Name'' (JStr ''Unnamed''))))
                (escape (str_of (dict_get p ''Description'' (JStr []))))
                img_html archs oses min_ver setup_notes site_link
                (escape (str_of (dict_get p ''Company'' (JStr ''Unnamed''))))"
    unfolding row by (rule fst_conv, rule snd_conv)
  note 1 = f [unfolded toc_row_text]
  have 4: \<open>occurs_in (''<article class="plugin-card" id="plugin-'' @ decimal i @ ''">'') (snd row)\<close>
    unfolding s article_text [symmetric] by (rule plugin_card_article)
  have 5: "occurs_in
          (''<h2>'' @ escape (str_of (dict_get p ''Name'' (JStr ''Unnamed''))) @ ''</h2>'')
          (snd row)"
    unfolding s by (rule plugin_card_name)
  have 6: \<open>occurs_in
          (''<p class="plugin-desc">'' @ escape (str_of (dict_get p ''Description'' (JStr []))) @
           ''</p>'')
          (snd row)\<close>
    unfolding s by (rule plugin_card_desc)
  have 7: "occurs_in
          (''<dt>Company</dt><dd>'' @ escape (str_of (dict_get p ''Company'' (JStr ''Unnamed''))) @
           ''</dd>'')
          (snd row)"
    unfolding s by (rule plugin_card_company)
  show ?thesis
    unfolding entry_listed_def p json.case
    using 1 assms(2) assms(3) 4 5 6 7 by (intro conjI)
qed

lemma rows_listed:
  assumes "build_rows repr 0 plugins = Inr rows" and "i < length plugins"
  shows "entry_listed i (plugins ! i) (rows ! i)
           (html_page (join ''\<newline>'' (map fst rows)) (join ''\<newline>'' (map snd rows)))"
proof -
  from assms have r: "plugin_rows repr i (plugins ! i) = Inr (rows ! i)"
    using build_rows_nth [of repr 0 plugins rows i] by simp
  from assms have l: "i < length rows"
    using build_rows_length [of repr 0 plugins rows] by simp
  then have "fst (rows ! i) \<in> set (map fst rows)" and "snd (rows ! i) \<in> set (map snd rows)"
    by simp_all
  then have "occurs_in (fst (rows ! i)) (join ''\<newline>'' (map fst rows))"
    and "occurs_in (snd (rows ! i)) (join ''\<newline>'' (map snd rows))"
    by (simp_all only: occurs_in_join)
  then have
    "occurs_in (fst (rows ! i))
       (html_page (join ''\<newline>'' (map fst rows)) (join ''\<newline>'' (map snd rows)))"
    and "occurs_in (snd (rows ! i))
       (html_page (join ''\<newline>'' (map fst rows)) (join ''\<newline>'' (map snd rows)))"
    using occurs_in_html_page occurs_in_trans by blast+
  with r show ?thesis
    by (rule entry_listed_row)
qed

text \<open>
  C2. The page that a run generates lists exactly the valid entries. For a run that
  returns 0: the plugins rendered are the values of the files matching \<^verbatim>\<open>*.json\<close>
  that parse and for which the validator returns the empty list, in the order of the
  sorted paths, and a value is among them if and only if some such file holds it; the
  text written to the output file is the fixed text of the page around the rows of the
  table of contents and the cards, one of each per plugin and no other; and every
  plugin is listed: its row and its card occur in the written text, the row is the
  link with its escaped name, and the card holds its anchor, its escaped name, its
  escaped description and its escaped company.
\<close>

theorem page_lists_exactly_the_valid_entries:
  assumes "fst (main w a) = Inr 0"
  shows "\<exists>d out plugins rows html.
           input_dir a = Some d \<and> output_file a = Some out \<and>
           plugins = valid_entries w (sort (glob_json w (resolve w d))) \<and>
           (\<forall>v. v \<in> set plugins \<longleftrightarrow>
              (\<exists>p \<in> set (glob_json w (resolve w d)).
                 load w p = Loads v \<and> validate_plugin_json v = Inr [])) \<and>
           build_rows (py_repr w) 0 plugins = Inr rows \<and> length rows = length plugins \<and>
           WriteText (resolve w out) html \<in> set (snd (main w a)) \<and>
           html =
             page_before_title @ title @ page_before_heading @ title @ page_before_toc @
             join ''\<newline>'' (map fst rows) @ page_before_body @
             join ''\<newline>'' (map snd rows) @ page_after_body \<and>
           (\<forall>i < length plugins. entry_listed i (plugins ! i) (rows ! i) html)"
proof -
  from main_success [OF assms] obtain d out plugins evs html where
    a: "input_dir a = Some d" "output_file a = Some out"
    and c: "collect_plugins w (resolve w d) = (Inr plugins, evs)"
    and r: "render_html (py_repr w) plugins = Inr html"
    and e: "snd (main w a) =
             evs @ [MkdirParents (butlast (resolve w out)), WriteText (resolve w out) html,
                    Print Stdout (Wrote (resolve w out) (length plugins))]"
    by blast
  from c have p: "plugins = valid_entries w (sort (glob_json w (resolve w d)))"
    by (intro collect_plugins_valid_entries) simp
  have m: "\<forall>v. v \<in> set plugins \<longleftrightarrow>
              (\<exists>p \<in> set (glob_json w (resolve w d)).
                 load w p = Loads v \<and> validate_plugin_json v = Inr [])"
    by (simp add: p set_valid_entries)
  from r obtain rows where
    b: "build_rows (py_repr w) 0 plugins = Inr rows"
    and h: "html = html_page (join ''\<newline>'' (map fst rows)) (join ''\<newline>'' (map snd rows))"
    by (auto simp add: render_html_def bind_exc_def split: sum.splits)
  from b have l: "length rows = length plugins"
    by (rule build_rows_length)
  from e have x: "WriteText (resolve w out) html \<in> set (snd (main w a))"
    by simp
  from h have t: "html =
             page_before_title @ title @ page_before_heading @ title @ page_before_toc @
             join ''\<newline>'' (map fst rows) @ page_before_body @
             join ''\<newline>'' (map snd rows) @ page_after_body"
    by (simp only: html_page_def)
  have s: "\<forall>i < length plugins. entry_listed i (plugins ! i) (rows ! i) html"
    unfolding h using rows_listed [OF b] by blast
  from a p m b l x t s show ?thesis
    by blast
qed

theorem page_lists_exactly_the_valid_entries_witness:
  \<open>fst (main env_one args_one) = Inr 0 \<and>
   (\<exists>html. WriteText [''site'', ''index.html''] html \<in> set (snd (main env_one args_one)) \<and>
      occurs_in ''<h2>Tracer &lt;1&gt;</h2>'' html \<and>
      occurs_in ''<p class="plugin-desc">Traces &amp; more</p>'' html)\<close>
proof -
  have v: "valid_entries env_one (sort (glob_json env_one [''plugins''])) = [plugin_ok]"
    by code_simp
  have ia: "input_dir args_one = Some [''plugins'']"
    and oa: "output_file args_one = Some [''site'', ''index.html'']"
    by (simp_all add: args_one_def)
  from page_lists_exactly_the_valid_entries [OF main_env_one] obtain d out plugins rows html where
    d: "input_dir args_one = Some d" and out: "output_file args_one = Some out"
    and p: "plugins = valid_entries env_one (sort (glob_json env_one (resolve env_one d)))"
    and x: "WriteText (resolve env_one out) html \<in> set (snd (main env_one args_one))"
    and s: "\<forall>i < length plugins. entry_listed i (plugins ! i) (rows ! i) html"
    by blast
  from d ia have d': "d = [''plugins'']"
    by simp
  from out oa have out': "out = [''site'', ''index.html'']"
    by simp
  from p have p': "plugins = [plugin_ok]"
    by (simp add: d' env_one_fields v)
  from s have el: "entry_listed 0 plugin_ok (rows ! 0) html"
    by (simp add: p')
  note k = el [unfolded entry_listed_def plugin_ok_def json.case]
  note c = k [THEN conjunct2, THEN conjunct2, THEN conjunct1]
  note n = k [THEN conjunct2, THEN conjunct2, THEN conjunct2, THEN conjunct2, THEN conjunct1]
  note de = k [THEN conjunct2, THEN conjunct2, THEN conjunct2, THEN conjunct2, THEN conjunct2,
      THEN conjunct1]
  have n': "''<h2>'' @ escape (str_of (dict_get ((''SchemaVersion'', JInt 1) # plugin_fields) ''Name''
             (JStr ''Unnamed''))) @ ''</h2>'' = ''<h2>Tracer &lt;1&gt;</h2>''"
    by code_simp
  have de': \<open>''<p class="plugin-desc">'' @
           escape (str_of (dict_get ((''SchemaVersion'', JInt 1) # plugin_fields) ''Description''
             (JStr []))) @ ''</p>'' = ''<p class="plugin-desc">Traces &amp; more</p>''\<close>
    by code_simp
  from n c have "occurs_in ''<h2>Tracer &lt;1&gt;</h2>'' html"
    unfolding n' by (rule occurs_in_trans)
  moreover from de c have \<open>occurs_in ''<p class="plugin-desc">Traces &amp; more</p>'' html\<close>
    unfolding de' by (rule occurs_in_trans)
  moreover from x have "WriteText [''site'', ''index.html''] html \<in> set (snd (main env_one args_one))"
    by (simp add: out' env_one_fields)
  ultimately show ?thesis
    using main_env_one by blast
qed

text \<open>
  C7. A successful run writes exactly one file: the calls to the file system of a run
  that returns 0 are one \<^verbatim>\<open>mkdir\<close> of the parent of the resolved output path and
  one \<^verbatim>\<open>write_text\<close> of that path, and nothing else.
\<close>

theorem successful_run_writes_one_file:
  assumes "fst (main w a) = Inr 0"
  shows "\<exists>out html.
           output_file a = Some out \<and>
           filter is_fs_event (snd (main w a)) =
             [MkdirParents (butlast (resolve w out)), WriteText (resolve w out) html]"
proof -
  from main_success [OF assms] obtain d out plugins evs html where
    a: "output_file a = Some out"
    and c: "collect_plugins w (resolve w d) = (Inr plugins, evs)"
    and e: "snd (main w a) =
             evs @ [MkdirParents (butlast (resolve w out)), WriteText (resolve w out) html,
                    Print Stdout (Wrote (resolve w out) (length plugins))]"
    by blast
  from c have "filter is_fs_event evs = []"
    using collect_plugins_prints [of w "resolve w d"] by simp
  with e have "filter is_fs_event (snd (main w a)) =
             [MkdirParents (butlast (resolve w out)), WriteText (resolve w out) html]"
    by simp
  with a show ?thesis
    by blast
qed

theorem successful_run_writes_one_file_witness:
  "fst (main env_one args_one) = Inr 0 \<and>
   (\<exists>html. filter is_fs_event (snd (main env_one args_one)) =
      [MkdirParents [''site''], WriteText [''site'', ''index.html''] html])"
proof -
  have "output_file args_one = Some [''site'', ''index.html'']"
    by (simp add: args_one_def)
  with successful_run_writes_one_file [OF main_env_one] main_env_one show ?thesis
    by (auto simp add: env_one_fields)
qed

section \<open>Independence of the enumeration order and of other files\<close>

lemma collect_loop_cong:
  "\<forall>p \<in> set paths. load w' p = load w p \<Longrightarrow> collect_loop w' paths acc = collect_loop w paths acc"
proof (induction paths arbitrary: acc)
  case Nil
  then show ?case by simp
next
  case (Cons p ps)
  then show ?case
    by (auto simp add: load_plugin_json_def split: load_outcome.splits sum.splits if_splits)
qed

lemma distinct_glob_json: "distinct (listdir w dir) \<Longrightarrow> distinct (glob_json w dir)"
  by (simp add: glob_json_def distinct_map inj_on_def)

lemma sort_glob_json_order:
  assumes "distinct (listdir w dir)" and "distinct (listdir w' dir)"
    and "set (listdir w' dir) = set (listdir w dir)"
  shows "sort (glob_json w' dir) = sort (glob_json w dir)"
proof (rule sorted_distinct_set_unique)
  show "sorted (sort (glob_json w' dir))" and "sorted (sort (glob_json w dir))"
    by simp_all
  show "distinct (sort (glob_json w' dir))" and "distinct (sort (glob_json w dir))"
    using assms by (simp_all add: distinct_glob_json)
  show "set (sort (glob_json w' dir)) = set (sort (glob_json w dir))"
    using assms by (simp add: glob_json_def)
qed

lemma collect_plugins_order:
  assumes "distinct (listdir w dir)" and "distinct (l' dir)" and "set (l' dir) = set (listdir w dir)"
  shows "collect_plugins (w\<lparr>listdir := l'\<rparr>) dir = collect_plugins w dir"
proof -
  have "sort (glob_json (w\<lparr>listdir := l'\<rparr>) dir) = sort (glob_json w dir)"
    using assms by (intro sort_glob_json_order) simp_all
  moreover have "collect_loop (w\<lparr>listdir := l'\<rparr>) paths [] = collect_loop w paths []" for paths
    by (rule collect_loop_cong) simp
  ultimately show ?thesis
    by (simp add: collect_plugins_def)
qed

lemma build_html_listdir: "build_html (w\<lparr>listdir := l'\<rparr>) plugins out = build_html w plugins out"
  by (simp add: build_html_def cong: sum.case_cong if_cong)

lemma build_html_load: "build_html (w\<lparr>load := l'\<rparr>) plugins out = build_html w plugins out"
  by (simp add: build_html_def cong: sum.case_cong if_cong)

text \<open>
  C5. The pipeline is deterministic. Two runs on directories that hold the same
  files, enumerated in any two orders, give the same result: \<^verbatim>\<open>collect_plugins\<close>
  returns the same plugins in the same order (that of the sorted paths) with the same
  messages, \<^verbatim>\<open>build_html\<close> writes the same text, and \<^verbatim>\<open>main\<close> does the same.
  The names of a directory are distinct in both enumerations.
\<close>

theorem run_independent_of_enumeration_order:
  assumes "\<forall>dir. distinct (listdir w dir) \<and> distinct (l' dir) \<and> set (l' dir) = set (listdir w dir)"
  shows "collect_plugins (w\<lparr>listdir := l'\<rparr>) dir = collect_plugins w dir \<and>
         build_html (w\<lparr>listdir := l'\<rparr>) plugins out = build_html w plugins out \<and>
         main (w\<lparr>listdir := l'\<rparr>) a = main w a"
proof -
  have c: "collect_plugins (w\<lparr>listdir := l'\<rparr>) d = collect_plugins w d" for d
    using assms by (intro collect_plugins_order) simp_all
  have "main (w\<lparr>listdir := l'\<rparr>) a = main w a"
    by (simp add: main_def c build_html_listdir
        cong: option.case_cong prod.case_cong sum.case_cong if_cong)
  with c build_html_listdir show ?thesis
    by simp
qed

theorem run_independent_of_enumeration_order_witness:
  "listdir env_one [''plugins''] = [''b.json'', ''a.json'', ''notes.txt''] \<and>
   listdir_other_order [''plugins''] = [''notes.txt'', ''a.json'', ''b.json''] \<and>
   collect_plugins (env_one\<lparr>listdir := listdir_other_order\<rparr>) [''plugins''] =
     collect_plugins env_one [''plugins''] \<and>
   main (env_one\<lparr>listdir := listdir_other_order\<rparr>) args_one = main env_one args_one"
proof -
  have "\<forall>dir. distinct (listdir env_one dir) \<and> distinct (listdir_other_order dir) \<and>
          set (listdir_other_order dir) = set (listdir env_one dir)"
    by (auto simp add: env_one_def example_env_def listdir_other_order_def)
  from run_independent_of_enumeration_order [OF this] have
    "collect_plugins (env_one\<lparr>listdir := listdir_other_order\<rparr>) [''plugins''] =
       collect_plugins env_one [''plugins''] \<and>
     main (env_one\<lparr>listdir := listdir_other_order\<rparr>) args_one = main env_one args_one"
    by blast
  moreover have "listdir env_one [''plugins''] = [''b.json'', ''a.json'', ''notes.txt'']"
    by (simp add: env_one_def example_env_def)
  moreover have "listdir_other_order [''plugins''] = [''notes.txt'', ''a.json'', ''b.json'']"
    by (simp add: listdir_other_order_def)
  ultimately show ?thesis
    by blast
qed

lemma set_glob_json:
  "p \<in> set (glob_json w dir) \<longleftrightarrow> (\<exists>name \<in> set (listdir w dir). matches_json name \<and> p = dir @ [name])"
  by (auto simp add: glob_json_def)

lemma collect_plugins_load:
  assumes "\<forall>dir name. matches_json name \<longrightarrow> load' (dir @ [name]) = load w (dir @ [name])"
  shows "collect_plugins (w\<lparr>load := load'\<rparr>) dir = collect_plugins w dir"
proof -
  have g: "glob_json (w\<lparr>load := load'\<rparr>) dir = glob_json w dir"
    by (simp add: glob_json_def)
  have "\<forall>p \<in> set (sort (glob_json w dir)). load (w\<lparr>load := load'\<rparr>) p = load w p"
    using assms by (auto simp add: set_glob_json)
  then have "collect_loop (w\<lparr>load := load'\<rparr>) (sort (glob_json w dir)) [] =
             collect_loop w (sort (glob_json w dir)) []"
    by (rule collect_loop_cong)
  with g show ?thesis
    by (simp add: collect_plugins_def)
qed

text \<open>
  C6. Only the files whose names match \<^verbatim>\<open>*.json\<close> are read: every path of the
  loop is an entry of the input directory with such a name, and the result of
  \<^verbatim>\<open>collect_plugins\<close> and of \<^verbatim>\<open>main\<close> does not change when the other files
  change.
\<close>

theorem only_json_files_are_read:
  assumes "\<forall>dir name. matches_json name \<longrightarrow> load' (dir @ [name]) = load w (dir @ [name])"
  shows "(\<forall>p \<in> set (sort (glob_json w dir)).
            \<exists>name \<in> set (listdir w dir). matches_json name \<and> p = dir @ [name]) \<and>
         collect_plugins (w\<lparr>load := load'\<rparr>) dir = collect_plugins w dir \<and>
         main (w\<lparr>load := load'\<rparr>) a = main w a"
proof -
  have c: "collect_plugins (w\<lparr>load := load'\<rparr>) d = collect_plugins w d" for d
    using assms by (rule collect_plugins_load)
  have "main (w\<lparr>load := load'\<rparr>) a = main w a"
    by (simp add: main_def c build_html_load
        cong: option.case_cong prod.case_cong sum.case_cong if_cong)
  with c show ?thesis
    by (simp add: set_glob_json)
qed

lemma not_matches_notes: "\<not> matches_json ''notes.txt''"
  by (simp add: matches_json_def)

theorem only_json_files_are_read_witness:
  "load_other_notes [''plugins'', ''notes.txt''] \<noteq> load env_one [''plugins'', ''notes.txt''] \<and>
   collect_plugins (env_one\<lparr>load := load_other_notes\<rparr>) [''plugins''] =
     collect_plugins env_one [''plugins''] \<and>
   main (env_one\<lparr>load := load_other_notes\<rparr>) args_one = main env_one args_one"
proof -
  have "\<forall>dir name. matches_json name \<longrightarrow>
          load_other_notes (dir @ [name]) = load env_one (dir @ [name])"
    using not_matches_notes by (auto simp add: load_other_notes_def)
  from only_json_files_are_read [OF this] have
    "collect_plugins (env_one\<lparr>load := load_other_notes\<rparr>) [''plugins''] =
       collect_plugins env_one [''plugins''] \<and>
     main (env_one\<lparr>load := load_other_notes\<rparr>) args_one = main env_one args_one"
    by blast
  moreover have
    "load_other_notes [''plugins'', ''notes.txt''] \<noteq> load env_one [''plugins'', ''notes.txt'']"
    by code_simp
  ultimately show ?thesis
    by blast
qed

section \<open>Properties of the rendering\<close>

lemma py_escape_Inr: "py_escape v = Inr s \<Longrightarrow> is_str v"
  by (cases v) (simp_all add: py_escape_def)

text \<open>
  A round of the loop that ends without an exception has passed the values of the
  five keys to \<^verbatim>\<open>escape\<close>, so each of them that is present is a string.
\<close>

lemma plugin_rows_escaped_keys:
  assumes "plugin_rows repr i (JObj d) = Inr r" and "key \<in> set ESCAPED_KEYS"
    and "map_of d key = Some v"
  shows "is_str v"
proof -
  from assms(1) have
    "is_str (dict_get d ''Company'' (JStr ''Unnamed''))"
    "is_str (dict_get d ''Name'' (JStr ''Unnamed''))"
    "is_str (dict_get d ''Description'' (JStr []))"
    "is_str (dict_get d ''SiteURL'' (JStr []))"
    "is_str (dict_get d ''SetupNotes'' (JStr []))"
    by (auto simp add: plugin_rows_def bind_exc_Inr_iff dest: py_escape_Inr)
  with assms(2,3) show ?thesis
    by (auto simp add: ESCAPED_KEYS_def dict_get_def)
qed

lemma build_rows_each:
  "build_rows repr i ps = Inr rows \<Longrightarrow> p \<in> set ps \<Longrightarrow> \<exists>j r. plugin_rows repr j p = Inr r"
proof (induction ps arbitrary: i rows)
  case Nil
  then show ?case by simp
next
  case (Cons q qs)
  then show ?case
    by (auto simp add: bind_exc_Inr_iff)
qed

lemma build_html_Inr:
  "fst (build_html w plugins out) = Inr u \<Longrightarrow> \<exists>rows. build_rows (py_repr w) 0 plugins = Inr rows"
  by (auto simp add: build_html_def render_html_def bind_exc_def split: sum.splits if_splits)

lemma render_null_name: "render_html repr [plugin_null_name] = Inl AttributeError"
  by (simp add: render_html_def plugin_rows_def plugin_null_name_def plugin_fields_def
      bind_exc_def py_escape_def dict_get_def)

text \<open>
  C9. Rendering is not total over validated input. The plugin \<open>plugin_null_name\<close>,
  whose \<^verbatim>\<open>Name\<close> is null, passes the validator, and \<^verbatim>\<open>build_html\<close> raises
  AttributeError on it before any call to the file system. \<^verbatim>\<open>build_html\<close> returns
  only when, in every plugin, each of \<^verbatim>\<open>Name\<close>, \<^verbatim>\<open>Description\<close>,
  \<^verbatim>\<open>Company\<close>, \<^verbatim>\<open>SiteURL\<close> and \<^verbatim>\<open>SetupNotes\<close> that is present is a string.
\<close>

theorem rendering_not_total_on_validated_input:
  "validate_plugin_json plugin_null_name = Inr [] \<and>
   build_html w [plugin_null_name] out = (Inl AttributeError, []) \<and>
   (\<forall>plugins d key v.
      fst (build_html w plugins out) = Inr () \<and> JObj d \<in> set plugins \<and>
      key \<in> set ESCAPED_KEYS \<and> map_of d key = Some v \<longrightarrow> is_str v)"
proof -
  have "validate_plugin_json plugin_null_name = Inr []"
    by code_simp
  moreover have "build_html w [plugin_null_name] out = (Inl AttributeError, [])"
    by (simp add: build_html_def render_null_name)
  moreover have "is_str v"
    if "fst (build_html w plugins out) = Inr ()" and "JObj d \<in> set plugins"
      and "key \<in> set ESCAPED_KEYS" and "map_of d key = Some v" for plugins d key v
  proof -
    from that(1) obtain rows where "build_rows (py_repr w) 0 plugins = Inr rows"
      using build_html_Inr by blast
    with that(2) obtain j r where "plugin_rows (py_repr w) j (JObj d) = Inr r"
      using build_rows_each by blast
    from this that(3,4) show ?thesis
      by (rule plugin_rows_escaped_keys)
  qed
  ultimately show ?thesis
    by blast
qed

lemma build_html_env_one: "fst (build_html env_one [plugin_ok] out) = Inr ()"
proof -
  obtain rows where "build_rows (py_repr env_one) 0 [plugin_ok] = Inr rows"
    using build_rows_plugin_ok by blast
  then show ?thesis
    by (simp add: build_html_def render_html_def bind_exc_def env_one_fields)
qed

theorem rendering_not_total_on_validated_input_witness:
  "fst (build_html env_one [plugin_ok] [''site'', ''index.html'']) = Inr () \<and>
   map_of ((''SchemaVersion'', JInt 1) # plugin_fields) ''Name'' = Some (JStr ''Tracer <1>'') \<and>
   is_str (JStr ''Tracer <1>'')"
proof -
  have m: "map_of ((''SchemaVersion'', JInt 1) # plugin_fields) ''Name'' = Some (JStr ''Tracer <1>'')"
    by (simp add: plugin_fields_def)
  have k: "''Name'' \<in> set ESCAPED_KEYS"
    by (simp add: ESCAPED_KEYS_def)
  have p: "JObj ((''SchemaVersion'', JInt 1) # plugin_fields) \<in> set [plugin_ok]"
    by (simp add: plugin_ok_def)
  from rendering_not_total_on_validated_input [of env_one "[''site'', ''index.html'']"]
    build_html_env_one [of "[''site'', ''index.html'']"] m k p
  have "is_str (JStr ''Tracer <1>'')"
    by blast
  with build_html_env_one m show ?thesis
    by blast
qed


section \<open>Images\<close>

lemma img_html_first_only:
  assumes "map_of d ''Images'' = Some (JList (e # rest))"
    and "map_of d' ''Images'' = Some (JList (e # rest'))"
  shows "plugin_img_html d' name = plugin_img_html d name"
  using assms by (simp add: plugin_img_html_def dict_get_def subscript0_def)

lemma plugin_rows_first_image_only:
  assumes "map_of d ''Images'' = Some (JList (e # rest))"
    and "map_of d' ''Images'' = Some (JList (e # rest'))"
    and "\<forall>key. key \<noteq> ''Images'' \<longrightarrow> map_of d' key = map_of d key"
  shows "plugin_rows repr i (JObj d') = plugin_rows repr i (JObj d)"
proof -
  have g: "dict_get d' key x = dict_get d key x" if "key \<noteq> ''Images''" for key x
    using assms(3) that by (simp add: dict_get_def)
  have "plugin_img_html d' name = plugin_img_html d name" for name
    using assms(1,2) by (rule img_html_first_only)
  then show ?thesis
    by (simp add: plugin_rows_def g)
qed

lemma build_rows_replace:
  assumes "\<forall>i. plugin_rows repr i p' = plugin_rows repr i p"
  shows "build_rows repr i (ps @ p' # rest) = build_rows repr i (ps @ p # rest)"
  using assms by (induction ps arbitrary: i) simp_all

lemma no_image_img_html:
  assumes "no_image p" and "plugin_img_html p name = Inr markup"
  shows "markup = []"
proof (cases "map_of p ''Images''")
  case None
  with assms(2) show ?thesis
    by (simp add: plugin_img_html_def dict_get_def)
next
  case (Some v)
  with assms(1) consider "v = JList []"
    | e rest where "v = JList (JObj e # rest)"
        and "map_of e ''Path'' = None \<or> map_of e ''Path'' = Some (JStr [])"
    by (auto simp add: no_image_def split: json.splits list.splits)
  then show ?thesis
  proof cases
    case 1
    with Some assms(2) show ?thesis
      by (simp add: plugin_img_html_def dict_get_def)
  next
    case 2
    with Some assms(2) show ?thesis
      by (auto simp add: plugin_img_html_def dict_get_def subscript0_def py_get_def bind_exc_Inr_iff)
  qed
qed

lemma no_image_card:
  assumes "no_image p" and "plugin_rows repr i (JObj p) = Inr (toc, card_html)"
  shows "\<exists>anchor_id name desc archs oses min_ver setup_notes site_link company.
           card_html = plugin_card anchor_id name desc [] archs oses min_ver setup_notes site_link company"
proof -
  from assms(2) obtain anchor_id company name desc archs oses min_ver setup_notes site_link
      img_html where
    i: "plugin_img_html p name = Inr img_html"
    and c: "card_html =
      plugin_card anchor_id name desc img_html archs oses min_ver setup_notes site_link company"
    by (auto simp add: plugin_rows_def bind_exc_Inr_iff Let_def)
  from assms(1) i have "img_html = []"
    by (rule no_image_img_html)
  with c show ?thesis
    by blast
qed

lemma build_html_first_image_only:
  assumes "map_of d ''Images'' = Some (JList (e # rest))"
    and "map_of d' ''Images'' = Some (JList (e # rest'))"
    and "\<forall>key. key \<noteq> ''Images'' \<longrightarrow> map_of d' key = map_of d key"
  shows "build_html w (ps @ JObj d' # qs) out = build_html w (ps @ JObj d # qs) out"
proof -
  have "plugin_rows (py_repr w) i (JObj d') = plugin_rows (py_repr w) i (JObj d)" for i
    using assms by (rule plugin_rows_first_image_only)
  then have "\<forall>i. plugin_rows (py_repr w) i (JObj d') = plugin_rows (py_repr w) i (JObj d)"
    by (rule allI)
  then have "build_rows (py_repr w) 0 (ps @ JObj d' # qs) =
             build_rows (py_repr w) 0 (ps @ JObj d # qs)"
    by (rule build_rows_replace)
  then show ?thesis
    by (simp only: build_html_def render_html_def)
qed

text \<open>
  C10. For every plugin, \<^verbatim>\<open>build_html\<close> renders at most the first entry of its
  \<^verbatim>\<open>Images\<close>: two lists of plugins that differ only in the entries after the
  first of the \<^verbatim>\<open>Images\<close> of one plugin give the same result (the same page, or
  the same exception). When \<^verbatim>\<open>Images\<close> is absent or empty, or the first entry has
  no \<^verbatim>\<open>Path\<close> or an empty one, the markup of the image is empty whenever it is
  computed, and the card of the plugin is built with no image.
\<close>

theorem only_first_image_is_rendered:
  "(map_of d ''Images'' = Some (JList (e # rest)) \<and>
    map_of d' ''Images'' = Some (JList (e # rest')) \<and>
    (\<forall>key. key \<noteq> ''Images'' \<longrightarrow> map_of d' key = map_of d key) \<longrightarrow>
      build_html w (ps @ JObj d' # qs) out = build_html w (ps @ JObj d # qs) out) \<and>
   (no_image p \<longrightarrow>
      (\<forall>name markup. plugin_img_html p name = Inr markup \<longrightarrow> markup = []) \<and>
      (\<forall>i toc card_html. plugin_rows (py_repr w) i (JObj p) = Inr (toc, card_html) \<longrightarrow>
         (\<exists>anchor_id name desc archs oses min_ver setup_notes site_link company.
            card_html = plugin_card anchor_id name desc [] archs oses min_ver setup_notes site_link
              company)))"
proof (intro conjI impI allI)
  assume a: "map_of d ''Images'' = Some (JList (e # rest)) \<and>
    map_of d' ''Images'' = Some (JList (e # rest')) \<and>
    (\<forall>key. key \<noteq> ''Images'' \<longrightarrow> map_of d' key = map_of d key)"
  show "build_html w (ps @ JObj d' # qs) out = build_html w (ps @ JObj d # qs) out"
  proof (rule build_html_first_image_only)
    from a show "map_of d ''Images'' = Some (JList (e # rest))"
      by (rule conjunct1)
    from a show "map_of d' ''Images'' = Some (JList (e # rest'))"
      by (rule conjunct1 [OF conjunct2])
    from a show "\<forall>key. key \<noteq> ''Images'' \<longrightarrow> map_of d' key = map_of d key"
      by (rule conjunct2 [OF conjunct2])
  qed
next
  fix name markup
  assume "no_image p" and "plugin_img_html p name = Inr markup"
  then show "markup = []"
    by (rule no_image_img_html)
next
  fix i toc card_html
  assume "no_image p" and "plugin_rows (py_repr w) i (JObj p) = Inr (toc, card_html)"
  then show "\<exists>anchor_id name desc archs oses min_ver setup_notes site_link company.
            card_html = plugin_card anchor_id name desc [] archs oses min_ver setup_notes site_link
              company"
    by (rule no_image_card)
qed

theorem only_first_image_is_rendered_witness:
  "build_html env_one [JObj fields_one_image] [''site'', ''index.html''] =
     build_html env_one [JObj fields_two_images] [''site'', ''index.html''] \<and>
   no_image ((''SchemaVersion'', JInt 1) # plugin_fields) \<and>
   plugin_img_html ((''SchemaVersion'', JInt 1) # plugin_fields) ''Tracer'' = Inr []"
proof -
  have 1: "map_of fields_two_images ''Images'' = Some (JList (image_one # [image_two]))"
    by (simp add: fields_two_images_def)
  have 2: "map_of fields_one_image ''Images'' = Some (JList (image_one # []))"
    by (simp add: fields_one_image_def)
  have 3: "\<forall>key. key \<noteq> ''Images'' \<longrightarrow> map_of fields_one_image key = map_of fields_two_images key"
    by (simp add: fields_one_image_def fields_two_images_def)
  have 4: "no_image ((''SchemaVersion'', JInt 1) # plugin_fields)"
    by (simp add: no_image_def plugin_fields_def)
  have h: "map_of fields_two_images ''Images'' = Some (JList (image_one # [image_two])) \<and>
      map_of fields_one_image ''Images'' = Some (JList (image_one # [])) \<and>
      (\<forall>key. key \<noteq> ''Images'' \<longrightarrow> map_of fields_one_image key = map_of fields_two_images key)"
    using 1 2 3 by (intro conjI) assumption+
  note t = only_first_image_is_rendered [where d = fields_two_images and d' = fields_one_image
      and e = image_one and rest = "[image_two]" and rest' = "[]" and ps = "[]" and qs = "[]"
      and w = env_one and out = "[''site'', ''index.html'']"
      and p = "(''SchemaVersion'', JInt 1) # plugin_fields"]
  from t [THEN conjunct1, THEN mp, OF h]
  have 5: "build_html env_one [JObj fields_one_image] [''site'', ''index.html''] =
     build_html env_one [JObj fields_two_images] [''site'', ''index.html'']"
    by (simp only: append_Nil)
  have 6: "plugin_img_html ((''SchemaVersion'', JInt 1) # plugin_fields) ''Tracer'' = Inr []"
    by (simp add: plugin_img_html_def plugin_fields_def dict_get_def)
  from 5 4 6 show ?thesis
    by (intro conjI)
qed

end
